theory Spec2Isabelle
  imports Complex_Main "HOL-Library.Monad_Syntax"
begin

section \<open>Balloon pop: the game, the gesture classifier and the main loop\<close>

text \<open>
  A shallow embedding of \<^verbatim>\<open>src/game.py\<close>, \<^verbatim>\<open>src/heart_detector.py\<close> and the loop of
  \<^verbatim>\<open>main.py\<close>.

  \<^item> Python objects are records, and a method that assigns to \<^verbatim>\<open>self\<close> returns the
    updated record.
  \<^item> Python \<^verbatim>\<open>int\<close> is \<open>int\<close>. Python \<^verbatim>\<open>float\<close> is idealised as \<open>real\<close>: every
    arithmetic operation is the exact one, without the rounding of binary64. The one
    exception is the draw of the balloon type, which compares a drawn value with sums of
    float literals: there every literal and every sum is rounded to binary64.
  \<^item> The game state and the balloon type are bare strings in the source and stay strings.
  \<^item> Every call of \<^verbatim>\<open>time.time()\<close> and every draw of the \<^verbatim>\<open>random\<close> module is an
    explicit argument of the function that makes the call.
  \<^item> Drawing, sound, fonts and the camera image are left out: they read the state and
    never write it.
\<close>

subsection \<open>Constants of game.py\<close>

definition VIRTUAL_WIDTH :: int where "VIRTUAL_WIDTH = 480"
definition VIRTUAL_HEIGHT :: int where "VIRTUAL_HEIGHT = 270"
definition GAME_DURATION :: int where "GAME_DURATION = 30"
definition BALLOON_SPAWN_INTERVAL :: real where "BALLOON_SPAWN_INTERVAL = 0.8"
definition BALLOON_SIZE :: int where "BALLOON_SIZE = 12"
definition SHOOT_COOLDOWN :: real where "SHOOT_COOLDOWN = 0.3"

subsection \<open>Binary64 values\<close>

text \<open>
  The rounding of binary64 arithmetic: round to nearest, ties to even, on a significand
  of 53 bits. It is the rounding of IEEE 754 for results in the normal range (no
  subnormal numbers, no overflow), where the probabilities of the balloon types and
  their sums lie. A float literal of the source is the rounding of its decimal value, and
  the sum of two floats is the rounding of their exact sum.
\<close>

definition round_half_even :: "real \<Rightarrow> int" where
  "round_half_even x =
     (let f = \<lfloor>x\<rfloor>; d = x - of_int f
      in if d < 1 / 2 then f else if d > 1 / 2 then f + 1 else if even f then f else f + 1)"

definition binary64 :: "real \<Rightarrow> real" where
  "binary64 x =
     (if x = 0 then 0
      else (let e = \<lfloor>log 2 \<bar>x\<bar>\<rfloor>
            in sgn x * of_int (round_half_even (\<bar>x\<bar> * 2 powr of_int (52 - e)))
                 * 2 powr of_int (e - 52)))"

text \<open>
  The dictionary is iterated with \<^verbatim>\<open>items()\<close>, in insertion order: an association list.
  Its values are float literals.
\<close>

definition BALLOON_TYPES :: "(string \<times> real) list" where
  "BALLOON_TYPES =
     [(''normal'', binary64 0.35), (''bonus'', binary64 0.20), (''penalty'', binary64 0.20),
      (''fast'', binary64 0.10), (''zigzag'', binary64 0.10), (''ultra_rare'', binary64 0.05)]"

subsection \<open>Balloon\<close>

type_synonym color = "int \<times> int \<times> int"

record balloon =
  b_x :: real
  b_y :: real
  b_initial_x :: real
  b_color :: color
  b_speed :: real
  b_radius :: int
  b_alive :: bool
  b_balloon_type :: string
  b_age :: real
  b_score_value :: int

text \<open>
  \<^verbatim>\<open>Balloon.__init__\<close>: the \<^verbatim>\<open>if/elif\<close> chain on the type string decides colour, speed,
  radius and score value; any string that is none of the five named ones takes the
  \<^verbatim>\<open>else\<close> branch of the normal balloon.
\<close>

definition Balloon_init :: "real \<Rightarrow> real \<Rightarrow> color \<Rightarrow> real \<Rightarrow> string \<Rightarrow> balloon" where
  "Balloon_init x y color speed balloon_type =
     (let (color', speed', radius', score_value') =
        (if balloon_type = ''bonus'' then ((255, 215, 0), speed, BALLOON_SIZE + 2, 20)
         else if balloon_type = ''penalty'' then ((138, 43, 226), speed, BALLOON_SIZE, - 30)
         else if balloon_type = ''fast'' then (color, speed * 1.8, BALLOON_SIZE, 15)
         else if balloon_type = ''zigzag'' then (color, speed, BALLOON_SIZE, 15)
         else if balloon_type = ''ultra_rare'' then ((255, 0, 255), speed * 3.0, BALLOON_SIZE + 3, 100)
         else (color, speed, BALLOON_SIZE, 10))
      in \<lparr> b_x = x, b_y = y, b_initial_x = x, b_color = color', b_speed = speed',
           b_radius = radius', b_alive = True, b_balloon_type = balloon_type, b_age = 0,
           b_score_value = score_value' \<rparr>)"

definition Balloon_update :: "balloon \<Rightarrow> real \<Rightarrow> balloon" where
  "Balloon_update b dt =
     (let b1 = b\<lparr> b_age := b_age b + dt \<rparr>;
          b2 = b1\<lparr> b_y := b_y b1 - b_speed b1 * dt \<rparr>;
          b3 = (if b_balloon_type b2 = ''zigzag''
                then b2\<lparr> b_x := b_initial_x b2 + sin (b_age b2 * 3) * 30 \<rparr>
                else b2)
      in if b_y b3 < of_int (- b_radius b3 * 2) then b3\<lparr> b_alive := False \<rparr> else b3)"

definition collides_with :: "balloon \<Rightarrow> real \<Rightarrow> real \<Rightarrow> real \<Rightarrow> bool" where
  "collides_with b x y radius =
     (let distance = sqrt ((b_x b - x)\<^sup>2 + (b_y b - y)\<^sup>2)
      in distance < of_int (b_radius b) + radius)"

subsection \<open>ShootEffect\<close>

record shoot_effect =
  e_x :: real
  e_y :: real
  e_radius :: real
  e_max_radius :: real
  e_alive :: bool
  e_lifetime :: real
  e_age :: real

definition ShootEffect_init :: "real \<Rightarrow> real \<Rightarrow> shoot_effect" where
  "ShootEffect_init x y =
     \<lparr> e_x = x, e_y = y, e_radius = 3, e_max_radius = 20, e_alive = True,
       e_lifetime = 0.3, e_age = 0 \<rparr>"

definition ShootEffect_update :: "shoot_effect \<Rightarrow> real \<Rightarrow> shoot_effect" where
  "ShootEffect_update e dt =
     (let e1 = e\<lparr> e_age := e_age e + dt \<rparr>
      in if e_age e1 \<ge> e_lifetime e1 then e1\<lparr> e_alive := False \<rparr>
         else (let progress = e_age e1 / e_lifetime e1
               in e1\<lparr> e_radius := 3 + (e_max_radius e1 - 3) * progress \<rparr>))"

subsection \<open>Game\<close>

record game =
  state :: string
  score :: int
  balloons_popped :: int
  game_start_time :: real
  last_shoot_time :: real
  last_balloon_spawn :: real
  balloons :: "balloon list"
  shoot_effects :: "shoot_effect list"
  running :: bool
  is_aiming :: bool
  aiming_position :: "(int \<times> int) option"

definition Game_init :: game where
  "Game_init =
     \<lparr> state = ''READY'', score = 0, balloons_popped = 0, game_start_time = 0,
       last_shoot_time = 0, last_balloon_spawn = 0, balloons = [], shoot_effects = [],
       running = True, is_aiming = False, aiming_position = None \<rparr>"

text \<open>
  The four draws of one \<^verbatim>\<open>spawn_balloon\<close> call: \<^verbatim>\<open>random.randint\<close>, \<^verbatim>\<open>random.choice\<close>
  on the colour list, \<^verbatim>\<open>random.uniform\<close> and \<^verbatim>\<open>random.random\<close>.
\<close>

record draws =
  randint_x :: int
  choice_color :: color
  uniform_speed :: real
  random_val :: real

text \<open>
  The loop over \<^verbatim>\<open>BALLOON_TYPES.items()\<close>: \<open>cumulative_prob\<close> and \<open>balloon_type\<close> are the
  loop's two variables, and the \<^verbatim>\<open>break\<close> is the equation that does not recurse.
  \<^verbatim>\<open>cumulative_prob += prob\<close> is an addition of floats.
\<close>

fun choose_type :: "(string \<times> real) list \<Rightarrow> real \<Rightarrow> real \<Rightarrow> string \<Rightarrow> string" where
  "choose_type [] rand_val cumulative_prob balloon_type = balloon_type"
| "choose_type ((btype, prob) # rest) rand_val cumulative_prob balloon_type =
     (let cumulative_prob' = binary64 (cumulative_prob + prob)
      in if rand_val \<le> cumulative_prob' then btype
         else choose_type rest rand_val cumulative_prob' balloon_type)"

definition spawn_balloon :: "game \<Rightarrow> draws \<Rightarrow> game" where
  "spawn_balloon g r =
     (let x = randint_x r;
          y = VIRTUAL_HEIGHT + BALLOON_SIZE;
          color = choice_color r;
          speed = uniform_speed r;
          rand_val = random_val r;
          balloon_type = choose_type BALLOON_TYPES rand_val 0 ''normal'';
          balloon = Balloon_init (of_int x) (of_int y) color speed balloon_type
      in g\<lparr> balloons := balloons g @ [balloon] \<rparr>)"

text \<open>
  The hit scan of \<^verbatim>\<open>shoot\<close>: the \<^verbatim>\<open>for\<close> loop over \<^verbatim>\<open>self.balloons\<close> with its \<^verbatim>\<open>break\<close>.
  It returns the balloon list, the score and the popped counter after the loop.
\<close>

fun hit_scan :: "balloon list \<Rightarrow> real \<Rightarrow> real \<Rightarrow> real \<Rightarrow> int \<Rightarrow> int \<Rightarrow> balloon list \<times> int \<times> int" where
  "hit_scan [] vx vy hit_radius sc pp = ([], sc, pp)"
| "hit_scan (b # bs) vx vy hit_radius sc pp =
     (if b_alive b \<and> collides_with b vx vy hit_radius
      then (b\<lparr> b_alive := False \<rparr> # bs,
            sc + b_score_value b,
            if b_score_value b > 0 then pp + 1 else pp)
      else (let (bs', sc', pp') = hit_scan bs vx vy hit_radius sc pp
            in (b # bs', sc', pp')))"

definition shoot :: "game \<Rightarrow> real \<Rightarrow> real \<Rightarrow> real \<Rightarrow> game" where
  "shoot g current_time x y =
     (if current_time - last_shoot_time g < SHOOT_COOLDOWN then g
      else
        (let virtual_x = (x / 1000.0) * of_int VIRTUAL_WIDTH;
             virtual_y = (y / 1000.0) * of_int VIRTUAL_HEIGHT;
             effect = ShootEffect_init virtual_x virtual_y;
             g1 = g\<lparr> shoot_effects := shoot_effects g @ [effect] \<rparr>;
             hit_radius = 15;
             (bs', sc', pp') =
               hit_scan (balloons g1) virtual_x virtual_y hit_radius (score g1) (balloons_popped g1);
             g2 = g1\<lparr> balloons := bs', score := sc', balloons_popped := pp' \<rparr>
         in g2\<lparr> last_shoot_time := current_time \<rparr>))"

text \<open>
  \<^verbatim>\<open>calculate_time_tickets\<close> returns a value and assigns nothing; the state it leaves is
  returned beside the value.
\<close>

definition calculate_time_tickets :: "game \<Rightarrow> int \<times> game" where
  "calculate_time_tickets g =
     (if balloons_popped g \<ge> 30 then (90, g)
      else if balloons_popped g \<ge> 15 then ((balloons_popped g - 15) * 6, g)
      else ((balloons_popped g - 15) * 6, g))"

definition Game_update :: "game \<Rightarrow> real \<Rightarrow> draws \<Rightarrow> real \<Rightarrow> game" where
  "Game_update g current_time r dt =
     (if state g = ''READY'' then g
      else if state g = ''RUN'' then
        (let elapsed_time = current_time - game_start_time g
         in if elapsed_time \<ge> of_int GAME_DURATION then g\<lparr> state := ''RESULT'' \<rparr>
            else
              (let g1 = (if current_time - last_balloon_spawn g \<ge> BALLOON_SPAWN_INTERVAL
                         then (spawn_balloon g r)\<lparr> last_balloon_spawn := current_time \<rparr>
                         else g);
                   g2 = g1\<lparr> balloons := map (\<lambda>b. Balloon_update b dt) (balloons g1) \<rparr>;
                   g3 = g2\<lparr> shoot_effects := map (\<lambda>e. ShootEffect_update e dt) (shoot_effects g2) \<rparr>;
                   g4 = g3\<lparr> balloons := filter b_alive (balloons g3) \<rparr>
               in g4\<lparr> shoot_effects := filter e_alive (shoot_effects g4) \<rparr>))
      else g)"

definition set_aiming :: "game \<Rightarrow> bool \<Rightarrow> (int \<times> int) option \<Rightarrow> game" where
  "set_aiming g aim position = g\<lparr> is_aiming := aim, aiming_position := position \<rparr>"

text \<open>\<^verbatim>\<open>start_game\<close> reads the clock twice.\<close>

definition start_game :: "game \<Rightarrow> real \<Rightarrow> real \<Rightarrow> game" where
  "start_game g time1 time2 =
     g\<lparr> state := ''RUN'', score := 0, balloons_popped := 0, game_start_time := time1,
        last_balloon_spawn := time2, balloons := [], shoot_effects := [] \<rparr>"

subsection \<open>Commands of the keyboard\<close>

datatype key = K_ESCAPE | K_q | K_SPACE | K_m | K_r | K_s | K_other

datatype event = QUIT | KEYDOWN key | OTHER_EVENT

text \<open>\<^verbatim>\<open>handle_event\<close> returns the command string, or \<^verbatim>\<open>None\<close>, and the game it leaves.\<close>

definition handle_event :: "game \<Rightarrow> event \<Rightarrow> string option \<times> game" where
  "handle_event g e =
     (case e of
        QUIT \<Rightarrow> (None, g\<lparr> running := False \<rparr>)
      | KEYDOWN k \<Rightarrow>
          if k = K_ESCAPE \<or> k = K_q then (None, g\<lparr> running := False \<rparr>)
          else if state g = ''READY'' then
            (if k = K_SPACE then (Some ''start'', g) else (None, g))
          else if state g = ''RUN'' then
            (if k = K_m then (Some ''manual_shoot'', g) else (None, g))
          else if state g = ''RESULT'' then
            (if k = K_r then (None, g\<lparr> state := ''READY'' \<rparr>)
             else if k = K_s then (Some ''save_screenshot'', g)
             else (None, g))
          else (None, g)
      | OTHER_EVENT \<Rightarrow> (None, g))"

text \<open>\<^verbatim>\<open>run_frame\<close> is \<^verbatim>\<open>update\<close> followed by \<^verbatim>\<open>draw\<close>, which writes no field of the game.\<close>

definition run_frame :: "game \<Rightarrow> real \<Rightarrow> draws \<Rightarrow> real \<Rightarrow> game" where
  "run_frame g current_time r dt = Game_update g current_time r dt"

section \<open>heart_detector.py\<close>

text \<open>
  A hand is the list \<^verbatim>\<open>landmarks.landmark\<close> of its landmarks, of which the classifier
  reads \<open>x\<close> and \<open>y\<close>. An index beyond the list raises in Python: \<open>None\<close> here.
\<close>

record landmark =
  lm_x :: real
  lm_y :: real

definition landmark_at :: "landmark list \<Rightarrow> nat \<Rightarrow> landmark option" where
  "landmark_at landmarks i = (if i < length landmarks then Some (landmarks ! i) else None)"

definition is_finger_extended :: "landmark list \<Rightarrow> nat \<Rightarrow> nat \<Rightarrow> bool option" where
  "is_finger_extended landmarks finger_tip_idx finger_pip_idx =
     do {
       tip \<leftarrow> landmark_at landmarks finger_tip_idx;
       pip \<leftarrow> landmark_at landmarks finger_pip_idx;
       Some (lm_y tip < lm_y pip - 0.015)
     }"

text \<open>Python's \<^verbatim>\<open>int()\<close> of a float truncates towards zero.\<close>

definition py_int :: "real \<Rightarrow> int" where
  "py_int v = (if v \<ge> 0 then \<lfloor>v\<rfloor> else \<lceil>v\<rceil>)"

text \<open>
  \<^verbatim>\<open>np.arctan2\<close> and \<^verbatim>\<open>np.degrees\<close>, as the functions on the reals that they
  approximate: the angle of the point \<open>(x, y)\<close> in \<open>(-\<pi>, \<pi>]\<close>, and radians to degrees.
\<close>

definition arctan2 :: "real \<Rightarrow> real \<Rightarrow> real" where
  "arctan2 y x =
     (if x > 0 then arctan (y / x)
      else if x < 0 then (if y \<ge> 0 then arctan (y / x) + pi else arctan (y / x) - pi)
      else if y > 0 then pi / 2
      else if y < 0 then - (pi / 2)
      else 0)"

definition degrees :: "real \<Rightarrow> real" where
  "degrees a = a * 180 / pi"

definition INDEX_TIP :: nat where "INDEX_TIP = 8"
definition INDEX_PIP :: nat where "INDEX_PIP = 6"
definition MIDDLE_TIP :: nat where "MIDDLE_TIP = 12"
definition MIDDLE_PIP :: nat where "MIDDLE_PIP = 10"
definition RING_TIP :: nat where "RING_TIP = 16"
definition RING_PIP :: nat where "RING_PIP = 14"
definition PINKY_TIP :: nat where "PINKY_TIP = 20"
definition PINKY_PIP :: nat where "PINKY_PIP = 18"
definition WRIST :: nat where "WRIST = 0"

text \<open>
  \<^verbatim>\<open>_detect_gun_gesture\<close> returns \<^verbatim>\<open>(shoot_position, is_aiming, aiming_position)\<close>.
\<close>

definition detect_gun_gesture ::
    "landmark list \<Rightarrow> ((int \<times> int) option \<times> bool \<times> (int \<times> int) option) option" where
  "detect_gun_gesture landmarks =
     do {
       index_tip \<leftarrow> landmark_at landmarks INDEX_TIP;
       wrist \<leftarrow> landmark_at landmarks WRIST;
       let position = (py_int (lm_x index_tip * 1000), py_int (lm_y index_tip * 1000));
       index_extended \<leftarrow> is_finger_extended landmarks INDEX_TIP INDEX_PIP;
       middle_extended \<leftarrow> is_finger_extended landmarks MIDDLE_TIP MIDDLE_PIP;
       ring_extended \<leftarrow> is_finger_extended landmarks RING_TIP RING_PIP;
       pinky_extended \<leftarrow> is_finger_extended landmarks PINKY_TIP PINKY_PIP;
       let middle_curled = \<not> middle_extended;
       let ring_curled = \<not> ring_extended;
       let pinky_curled = \<not> pinky_extended;
       let is_strict_gun = index_extended \<and> middle_curled \<and> ring_curled \<and> pinky_curled;
       let dx = lm_x index_tip - lm_x wrist;
       let dy = lm_y index_tip - lm_y wrist;
       let angle = arctan2 dy dx;
       let angle_degrees = degrees angle;
       let angle_degrees = (if angle_degrees < 0 then angle_degrees + 360 else angle_degrees);
       if 225 \<le> angle_degrees \<and> angle_degrees \<le> 315 \<and> is_strict_gun
       then Some (Some position, False, None)
       else Some (None, True, Some position)
     }"

text \<open>
  What \<^verbatim>\<open>detect\<close> returns without the debug image:
  \<^verbatim>\<open>(shoot_detected, shoot_position, is_aiming, aiming_position)\<close>.
\<close>

type_synonym verdict = "bool \<times> (int \<times> int) option \<times> bool \<times> (int \<times> int) option"

record detector =
  det_shoot_detected :: bool
  det_last_shoot_position :: "(int \<times> int) option"
  det_aiming :: bool
  det_aiming_position :: "(int \<times> int) option"

definition no_gesture :: "detector \<Rightarrow> verdict \<times> detector" where
  "no_gesture d =
     ((False, None, False, None),
      d\<lparr> det_shoot_detected := False, det_last_shoot_position := None,
         det_aiming := False, det_aiming_position := None \<rparr>)"

text \<open>
  The loop of \<^verbatim>\<open>detect\<close> over \<^verbatim>\<open>results.multi_hand_landmarks\<close>; a tuple is true in
  Python, so \<^verbatim>\<open>if shoot_pos\<close> asks whether it is not \<^verbatim>\<open>None\<close>. After the loop comes the
  code for no gesture.
\<close>

fun detect_hands :: "detector \<Rightarrow> landmark list list \<Rightarrow> (verdict \<times> detector) option" where
  "detect_hands d [] = Some (no_gesture d)"
| "detect_hands d (hand_landmarks # rest) =
     (case detect_gun_gesture hand_landmarks of
        None \<Rightarrow> None
      | Some (shoot_pos, aim, aim_pos) \<Rightarrow>
          (case shoot_pos of
             Some p \<Rightarrow>
               Some ((True, shoot_pos, False, None),
                     d\<lparr> det_shoot_detected := True, det_last_shoot_position := shoot_pos,
                        det_aiming := False, det_aiming_position := None \<rparr>)
           | None \<Rightarrow>
               if aim
               then Some ((False, None, True, aim_pos),
                          d\<lparr> det_shoot_detected := False, det_last_shoot_position := None,
                             det_aiming := True, det_aiming_position := aim_pos \<rparr>)
               else detect_hands d rest))"

text \<open>
  \<^verbatim>\<open>detect\<close> on the hands found in the frame; no hand (\<^verbatim>\<open>None\<close> or the empty list) is
  the empty list.
\<close>

definition detect :: "detector \<Rightarrow> landmark list list \<Rightarrow> (verdict \<times> detector) option" where
  "detect d multi_hand_landmarks =
     (if multi_hand_landmarks = [] then Some (no_gesture d)
      else detect_hands d multi_hand_landmarks)"

section \<open>The loop of main.py\<close>

record main_locals =
  last_time :: real
  last_heart_state :: bool
  last_aiming_position :: "(int \<times> int) option"

definition main_locals_init :: "real \<Rightarrow> main_locals" where
  "main_locals_init t =
     \<lparr> last_time = t, last_heart_state = False, last_aiming_position = None \<rparr>"

text \<open>
  The block under \<^verbatim>\<open>if frame_data\<close>: the verdict of the detector on the frame goes to the
  game and to the two remembered values, and a rising edge may call \<^verbatim>\<open>game.shoot\<close>, which
  reads the clock. Beside the locals and the game, the result tells whether the condition
  of the rising edge held and with which position \<^verbatim>\<open>game.shoot\<close> was called, if it was.
\<close>

definition process_frame ::
    "main_locals \<Rightarrow> game \<Rightarrow> verdict option \<Rightarrow> real
       \<Rightarrow> main_locals \<times> game \<times> bool \<times> (int \<times> int) option" where
  "process_frame loc g frame_data shoot_time =
     (case frame_data of
        None \<Rightarrow> (loc, g, False, None)
      | Some (heart_detected, heart_position, aim, aim_pos) \<Rightarrow>
          (let (g1, lap) =
                 (if state g = ''READY'' \<or> state g = ''RUN''
                  then (set_aiming g aim aim_pos,
                        if aim \<and> aim_pos \<noteq> None then aim_pos else last_aiming_position loc)
                  else (g, last_aiming_position loc));
               triggered = (heart_detected \<and> \<not> last_heart_state loc);
               (g2, call) =
                 (if triggered then
                    (if state g1 = ''RUN'' then
                       (case lap of
                          Some (x, y) \<Rightarrow> (shoot g1 shoot_time (of_int x) (of_int y), Some (x, y))
                        | None \<Rightarrow> (g1, None))
                     else (g1, None))
                  else (g1, None))
           in (loc\<lparr> last_aiming_position := lap, last_heart_state := heart_detected \<rparr>,
               g2, triggered, call)))"

text \<open>
  One event of \<^verbatim>\<open>pygame.event.get()\<close> with the readings of the clock for the command it
  may start: \<^verbatim>\<open>start_game\<close> reads two, the manual shot one.
\<close>

record event_input =
  ev :: event
  ev_time1 :: real
  ev_time2 :: real

fun process_events :: "game \<Rightarrow> event_input list \<Rightarrow> game" where
  "process_events g [] = g"
| "process_events g (e # es) =
     (let (command, g1) = handle_event g (ev e);
          g2 = (if command = Some ''start'' then start_game g1 (ev_time1 e) (ev_time2 e)
                else if command = Some ''manual_shoot'' then shoot g1 (ev_time1 e) 500 500
                else g1)
      in process_events g2 es)"

text \<open>
  What one iteration of the loop reads from outside: the clock at its top, the verdict of
  the detector on the camera frame (\<open>None\<close> when the camera gave no frame), the clock for
  the shot of the gesture, the events, and the clock and the random draws of \<^verbatim>\<open>update\<close>.
\<close>

record iteration_input =
  loop_time :: real
  frame_data :: "verdict option"
  shoot_time :: real
  events :: "event_input list"
  update_time :: real
  update_draws :: draws

record observation =
  obs_state :: string
  obs_triggered :: bool
  obs_shoot_call :: "(int \<times> int) option"

definition main_iteration ::
    "main_locals \<Rightarrow> game \<Rightarrow> iteration_input \<Rightarrow> main_locals \<times> game \<times> observation" where
  "main_iteration loc g inp =
     (let current_time = loop_time inp;
          dt = current_time - last_time loc;
          loc1 = loc\<lparr> last_time := current_time \<rparr>;
          dt = (if dt > 0.1 then 0.1 else dt);
          (loc2, g1, triggered, call) = process_frame loc1 g (frame_data inp) (shoot_time inp);
          g2 = process_events g1 (events inp);
          g3 = run_frame g2 (update_time inp) (update_draws inp) dt
      in (loc2, g3,
          \<lparr> obs_state = state g, obs_triggered = triggered, obs_shoot_call = call \<rparr>))"

text \<open>
  \<^verbatim>\<open>while game.running\<close> over the inputs of the iterations: it returns what each iteration
  that ran has shown, the locals and the game.
\<close>

fun main_loop ::
    "main_locals \<Rightarrow> game \<Rightarrow> iteration_input list \<Rightarrow> observation list \<times> main_locals \<times> game" where
  "main_loop loc g [] = ([], loc, g)"
| "main_loop loc g (inp # inps) =
     (if running g then
        (let (loc', g', ob) = main_iteration loc g inp;
             (obs, loc'', g'') = main_loop loc' g' inps
         in (ob # obs, loc'', g''))
      else ([], loc, g))"

section \<open>Notions of the specification\<close>

text \<open>
  A live balloon within reach of a shot at \<open>(px, py)\<close>: its distance to the point is
  less than its radius plus the hit radius of 15.
\<close>

definition within_hit_radius :: "balloon \<Rightarrow> real \<Rightarrow> real \<Rightarrow> bool" where
  "within_hit_radius b px py =
     (b_alive b \<and> sqrt ((b_x b - px)\<^sup>2 + (b_y b - py)\<^sup>2) < of_int (b_radius b) + 15)"

text \<open>
  The cumulative probability of the category at index \<open>i\<close> of a table, as a sum of
  floats from the left, starting from \<open>acc\<close>.
\<close>

fun cumulative :: "real \<Rightarrow> (string \<times> real) list \<Rightarrow> nat \<Rightarrow> real" where
  "cumulative acc [] i = acc"
| "cumulative acc ((btype, prob) # rest) 0 = binary64 (acc + prob)"
| "cumulative acc ((btype, prob) # rest) (Suc i) = cumulative (binary64 (acc + prob)) rest i"

text \<open>A run of \<^verbatim>\<open>update\<close> calls, each with its clock reading, its draws and its \<open>dt\<close>.\<close>

definition run_updates :: "game \<Rightarrow> (real \<times> draws \<times> real) list \<Rightarrow> game" where
  "run_updates g ticks = foldl (\<lambda>g' (current_time, r, dt). Game_update g' current_time r dt) g ticks"

text \<open>Two balloons of different types at the same place, the penalty balloon first.\<close>

definition overlapping_pair :: game where
  "overlapping_pair =
     Game_init\<lparr> state := ''RUN'',
       balloons := [Balloon_init 240 135 (255, 99, 71) 20 ''penalty'',
                    Balloon_init 240 135 (255, 99, 71) 20 ''bonus''] \<rparr>"

text \<open>A game started at clock reading 1000, and one set of draws.\<close>

definition fresh_game_1000 :: game where
  "fresh_game_1000 = start_game Game_init 1000 1000"

definition some_draws :: draws where
  "some_draws = \<lparr> randint_x = 100, choice_color = (255, 99, 71), uniform_speed = 20, random_val = 0.5 \<rparr>"

text \<open>
  The words of the classifier's description: a finger is up when its tip is above its PIP
  joint by more than 0.015; the strict gun is the index up and middle, ring and pinky not
  up; the pointing angle is the angle from the wrist to the index tip in degrees,
  normalised by adding 360 to a negative value; the position is the index tip scaled by
  1000 and truncated.
\<close>

definition finger_up :: "landmark list \<Rightarrow> nat \<Rightarrow> nat \<Rightarrow> bool" where
  "finger_up h tip pip = (lm_y (h ! tip) < lm_y (h ! pip) - 0.015)"

definition strict_gun :: "landmark list \<Rightarrow> bool" where
  "strict_gun h = (finger_up h 8 6 \<and> \<not> finger_up h 12 10 \<and> \<not> finger_up h 16 14 \<and> \<not> finger_up h 20 18)"

definition pointing_angle :: "landmark list \<Rightarrow> real" where
  "pointing_angle h =
     (let a = degrees (arctan2 (lm_y (h ! 8) - lm_y (h ! 0)) (lm_x (h ! 8) - lm_x (h ! 0)))
      in if a < 0 then a + 360 else a)"

definition index_tip_position :: "landmark list \<Rightarrow> int \<times> int" where
  "index_tip_position h = (py_int (lm_x (h ! 8) * 1000), py_int (lm_y (h ! 8) * 1000))"

text \<open>The fields that \<^verbatim>\<open>HeartDetector.__init__\<close> sets, and two hands of 21 landmarks.\<close>

definition HeartDetector_init :: detector where
  "HeartDetector_init =
     \<lparr> det_shoot_detected = False, det_last_shoot_position = None,
       det_aiming = False, det_aiming_position = None \<rparr>"

definition hand_of :: "(real \<times> real) list \<Rightarrow> landmark list" where
  "hand_of ps = map (\<lambda>(x, y). \<lparr> lm_x = x, lm_y = y \<rparr>) ps"

definition hand_pointing_up :: "landmark list" where
  "hand_pointing_up = hand_of
     [(0.5, 0.8),
      (0.45, 0.75), (0.4, 0.7), (0.38, 0.65), (0.36, 0.6),
      (0.48, 0.6), (0.49, 0.5), (0.5, 0.45), (0.5, 0.4),
      (0.52, 0.62), (0.52, 0.6), (0.52, 0.63), (0.52, 0.66),
      (0.55, 0.64), (0.55, 0.62), (0.55, 0.65), (0.55, 0.68),
      (0.58, 0.66), (0.58, 0.64), (0.58, 0.67), (0.58, 0.7)]"

definition hand_pointing_right :: "landmark list" where
  "hand_pointing_right = hand_of
     [(0.2, 0.5),
      (0.25, 0.45), (0.3, 0.4), (0.35, 0.38), (0.4, 0.36),
      (0.4, 0.48), (0.5, 0.49), (0.55, 0.5), (0.6, 0.5),
      (0.38, 0.52), (0.4, 0.52), (0.37, 0.52), (0.34, 0.52),
      (0.36, 0.55), (0.38, 0.55), (0.35, 0.55), (0.32, 0.55),
      (0.34, 0.58), (0.36, 0.58), (0.33, 0.58), (0.3, 0.58)]"

text \<open>
  Of the input of an iteration: whether its verdict is shoot, whether it is aiming, and the
  aiming position the iteration records when the game is in the given state, if it
  records one. Of a run: the aiming position recorded by iteration \<open>k\<close>. An event that
  ends the loop.
\<close>

definition shoot_detected_of :: "iteration_input \<Rightarrow> bool" where
  "shoot_detected_of inp =
     (case frame_data inp of Some (sd, sp, ia, ap) \<Rightarrow> sd | None \<Rightarrow> False)"

definition is_quit :: "event \<Rightarrow> bool" where
  "is_quit e = (e = QUIT \<or> e = KEYDOWN K_ESCAPE \<or> e = KEYDOWN K_q)"

definition recorded_aim :: "string \<Rightarrow> iteration_input \<Rightarrow> (int \<times> int) option" where
  "recorded_aim st inp =
     (case frame_data inp of
        Some (sd, sp, ia, ap) \<Rightarrow> if (st = ''READY'' \<or> st = ''RUN'') \<and> ia then ap else None
      | None \<Rightarrow> None)"

definition aiming_of :: "iteration_input \<Rightarrow> bool" where
  "aiming_of inp =
     (case frame_data inp of Some (sd, sp, ia, ap) \<Rightarrow> ia | None \<Rightarrow> False)"

definition recorded_at :: "observation list \<Rightarrow> iteration_input list \<Rightarrow> nat \<Rightarrow> (int \<times> int) option" where
  "recorded_at obs inps k = recorded_aim (obs_state (obs ! k)) (inps ! k)"


text \<open>
  Inputs of iterations: one clock reading for the whole iteration, and a key pressed at
  that reading. The position of an aiming verdict, and the position of the most recent
  aiming verdict before iteration \<open>i\<close>, whatever the state of the game was.
\<close>

definition tick :: "real \<Rightarrow> verdict option \<Rightarrow> event_input list \<Rightarrow> iteration_input" where
  "tick t fd es =
     \<lparr> loop_time = t, frame_data = fd, shoot_time = t, events = es, update_time = t,
       update_draws = some_draws \<rparr>"

definition key_at :: "key \<Rightarrow> real \<Rightarrow> event_input" where
  "key_at k t = \<lparr> ev = KEYDOWN k, ev_time1 = t, ev_time2 = t \<rparr>"

definition aimed_at :: "iteration_input \<Rightarrow> (int \<times> int) option" where
  "aimed_at inp =
     (case frame_data inp of Some (sd, sp, ia, ap) \<Rightarrow> if ia then ap else None | None \<Rightarrow> None)"

definition latest_aiming_before :: "iteration_input list \<Rightarrow> nat \<Rightarrow> (int \<times> int) option" where
  "latest_aiming_before inps i =
     (case filter (\<lambda>v. v \<noteq> None) (rev (map aimed_at (take i inps))) of
        [] \<Rightarrow> None | v # _ \<Rightarrow> v)"

definition five_ticks :: "iteration_input list" where
  "five_ticks =
     [tick 1 (Some (False, None, True, Some (480, 520))) [],
      tick 2 (Some (True, Some (500, 400), False, None)) [],
      tick 3 (Some (True, Some (500, 400), False, None)) [],
      tick 4 (Some (False, None, True, Some (480, 520))) [],
      tick 5 (Some (True, Some (500, 400), False, None)) []]"

definition shoot_tick :: iteration_input where
  "shoot_tick = tick 1001 (Some (True, Some (500, 100), False, None)) []"

definition replay_ticks :: "iteration_input list" where
  "replay_ticks =
     [tick 1000 (Some (False, None, True, Some (100, 100))) [key_at K_SPACE 1000],
      tick 1030 None [],
      tick 1031 (Some (False, None, True, Some (900, 900))) [key_at K_r 1031],
      tick 1032 (Some (False, None, False, None)) [key_at K_SPACE 1032],
      tick 1033 (Some (True, Some (500, 100), False, None)) []]"

section \<open>The time ticket\<close>

text \<open>
  C3. The time ticket is a function of the popped counter alone: 90 from 30 popped on,
  \<open>(popped - 15) * 6\<close> below 30 (negative below 15); it is \<open>-90\<close>, \<open>0\<close>, \<open>84\<close>, \<open>90\<close>, \<open>90\<close> at
  \<open>0\<close>, \<open>15\<close>, \<open>29\<close>, \<open>30\<close>, \<open>45\<close> popped; and computing it leaves the game state as it was.
\<close>

theorem time_tickets_formula:
  "fst (calculate_time_tickets g) =
     (if balloons_popped g \<ge> 30 then 90 else (balloons_popped g - 15) * 6)
   \<and> (balloons_popped g < 15 \<longrightarrow> fst (calculate_time_tickets g) < 0)
   \<and> (balloons_popped g = balloons_popped g' \<longrightarrow>
        fst (calculate_time_tickets g) = fst (calculate_time_tickets g'))
   \<and> fst (calculate_time_tickets (g\<lparr> balloons_popped := 0 \<rparr>)) = - 90
   \<and> fst (calculate_time_tickets (g\<lparr> balloons_popped := 15 \<rparr>)) = 0
   \<and> fst (calculate_time_tickets (g\<lparr> balloons_popped := 29 \<rparr>)) = 84
   \<and> fst (calculate_time_tickets (g\<lparr> balloons_popped := 30 \<rparr>)) = 90
   \<and> fst (calculate_time_tickets (g\<lparr> balloons_popped := 45 \<rparr>)) = 90
   \<and> snd (calculate_time_tickets g) = g"
  by (simp add: calculate_time_tickets_def)

theorem time_tickets_formula_witness:
  "balloons_popped (Game_init\<lparr> balloons_popped := 10 \<rparr>) < 15
   \<and> balloons_popped (Game_init\<lparr> balloons_popped := 10 \<rparr>)
       = balloons_popped (Game_init\<lparr> balloons_popped := 10, score := 70 \<rparr>)
   \<and> fst (calculate_time_tickets (Game_init\<lparr> balloons_popped := 10 \<rparr>)) = - 30
   \<and> fst (calculate_time_tickets (Game_init\<lparr> balloons_popped := 10, score := 70 \<rparr>)) = - 30
   \<and> snd (calculate_time_tickets (Game_init\<lparr> balloons_popped := 10 \<rparr>))
       = Game_init\<lparr> balloons_popped := 10 \<rparr>"
  using time_tickets_formula [of "Game_init\<lparr> balloons_popped := 10 \<rparr>"
      "Game_init\<lparr> balloons_popped := 10, score := 70 \<rparr>"]
  by (simp add: Game_init_def)

section \<open>Balloon parameters\<close>

lemma Balloon_update_keeps:
  "b_score_value (Balloon_update b dt) = b_score_value b \<and>
   b_radius (Balloon_update b dt) = b_radius b \<and>
   b_balloon_type (Balloon_update b dt) = b_balloon_type b \<and>
   b_speed (Balloon_update b dt) = b_speed b"
  by (simp add: Balloon_update_def Let_def)

lemma foldl_Balloon_update_keeps:
  "b_score_value (foldl Balloon_update b dts) = b_score_value b \<and>
   b_radius (foldl Balloon_update b dts) = b_radius b \<and>
   b_balloon_type (foldl Balloon_update b dts) = b_balloon_type b \<and>
   b_speed (foldl Balloon_update b dts) = b_speed b"
  by (induction dts arbitrary: b) (simp_all add: Balloon_update_keeps)

text \<open>
  C9. Score value, radius and speed multiplier of a balloon are decided by its type at
  construction: normal \<open>(10, base, 1.0)\<close>, bonus \<open>(20, base + 2, 1.0)\<close>, penalty
  \<open>(-30, base, 1.0)\<close>, fast \<open>(15, base, 1.8)\<close>, zigzag \<open>(15, base, 1.0)\<close>, ultra rare
  \<open>(100, base + 3, 3.0)\<close>; score value and radius do not depend on the other arguments
  of the constructor, and no update of the balloon, nor any number of them, changes them.
\<close>

theorem balloon_parameters_by_type:
  "(let b = Balloon_init x y c s ''normal''
    in b_score_value b = 10 \<and> b_radius b = BALLOON_SIZE \<and> b_speed b = s * 1.0)
   \<and> (let b = Balloon_init x y c s ''bonus''
    in b_score_value b = 20 \<and> b_radius b = BALLOON_SIZE + 2 \<and> b_speed b = s * 1.0)
   \<and> (let b = Balloon_init x y c s ''penalty''
    in b_score_value b = - 30 \<and> b_radius b = BALLOON_SIZE \<and> b_speed b = s * 1.0)
   \<and> (let b = Balloon_init x y c s ''fast''
    in b_score_value b = 15 \<and> b_radius b = BALLOON_SIZE \<and> b_speed b = s * 1.8)
   \<and> (let b = Balloon_init x y c s ''zigzag''
    in b_score_value b = 15 \<and> b_radius b = BALLOON_SIZE \<and> b_speed b = s * 1.0)
   \<and> (let b = Balloon_init x y c s ''ultra_rare''
    in b_score_value b = 100 \<and> b_radius b = BALLOON_SIZE + 3 \<and> b_speed b = s * 3.0)
   \<and> b_score_value (Balloon_init x y c s ty) = b_score_value (Balloon_init x' y' c' s' ty)
   \<and> b_radius (Balloon_init x y c s ty) = b_radius (Balloon_init x' y' c' s' ty)
   \<and> b_score_value (Balloon_update b dt) = b_score_value b
   \<and> b_radius (Balloon_update b dt) = b_radius b
   \<and> b_score_value (foldl Balloon_update b dts) = b_score_value b
   \<and> b_radius (foldl Balloon_update b dts) = b_radius b"
  by (simp add: Balloon_init_def Balloon_update_keeps foldl_Balloon_update_keeps)

section \<open>The shot\<close>

lemma hit_scan_miss:
  "\<forall>b \<in> set bs. \<not> (b_alive b \<and> collides_with b vx vy r) \<Longrightarrow> hit_scan bs vx vy r sc pp = (bs, sc, pp)"
  by (induction bs) auto

lemma hit_scan_first:
  "i < length bs \<Longrightarrow> b_alive (bs ! i) \<and> collides_with (bs ! i) vx vy r \<Longrightarrow>
   \<forall>j < i. \<not> (b_alive (bs ! j) \<and> collides_with (bs ! j) vx vy r) \<Longrightarrow>
   hit_scan bs vx vy r sc pp =
     (bs[i := (bs ! i)\<lparr> b_alive := False \<rparr>], sc + b_score_value (bs ! i),
      if b_score_value (bs ! i) > 0 then pp + 1 else pp)"
proof (induction bs arbitrary: i)
  case Nil
  then show ?case by simp
next
  case (Cons b bs)
  show ?case
  proof (cases i)
    case 0
    with Cons.prems show ?thesis by simp
  next
    case (Suc k)
    with Cons.prems have nb: "\<not> (b_alive b \<and> collides_with b vx vy r)"
      by auto
    from Suc Cons.prems have k: "k < length bs" "b_alive (bs ! k) \<and> collides_with (bs ! k) vx vy r"
      by auto
    from Suc Cons.prems have "\<forall>j < k. \<not> (b_alive (bs ! j) \<and> collides_with (bs ! j) vx vy r)"
      by auto
    from Cons.IH [OF k this] nb Suc show ?thesis by auto
  qed
qed

lemma hit_scan_cases:
  "hit_scan bs vx vy r sc pp = (bs, sc, pp) \<or>
   (\<exists>i < length bs. hit_scan bs vx vy r sc pp =
     (bs[i := (bs ! i)\<lparr> b_alive := False \<rparr>], sc + b_score_value (bs ! i),
      if b_score_value (bs ! i) > 0 then pp + 1 else pp))"
proof (cases "\<exists>i < length bs. b_alive (bs ! i) \<and> collides_with (bs ! i) vx vy r")
  case True
  define i where "i = (LEAST i. i < length bs \<and> b_alive (bs ! i) \<and> collides_with (bs ! i) vx vy r)"
  from True have a: "i < length bs \<and> b_alive (bs ! i) \<and> collides_with (bs ! i) vx vy r"
    unfolding i_def by (metis (mono_tags, lifting) LeastI)
  have b: "\<forall>j < i. \<not> (b_alive (bs ! j) \<and> collides_with (bs ! j) vx vy r)"
  proof (intro allI impI)
    fix j assume "j < i"
    then have "\<not> (j < length bs \<and> b_alive (bs ! j) \<and> collides_with (bs ! j) vx vy r)"
      unfolding i_def by (rule not_less_Least)
    moreover from \<open>j < i\<close> a have "j < length bs" by simp
    ultimately show "\<not> (b_alive (bs ! j) \<and> collides_with (bs ! j) vx vy r)" by simp
  qed
  from hit_scan_first [of i bs vx vy r sc pp] a b show ?thesis by blast
next
  case False
  then have "\<forall>b \<in> set bs. \<not> (b_alive b \<and> collides_with b vx vy r)"
    by (metis in_set_conv_nth)
  from hit_scan_miss [OF this] show ?thesis by simp
qed

lemma changed_at_most_one:
  "card {k. k < length bs \<and> bs[i := v] ! k \<noteq> bs ! k} \<le> 1"
proof -
  have "{k. k < length bs \<and> bs[i := v] ! k \<noteq> bs ! k} \<subseteq> {i}"
  proof (rule subsetI)
    fix k assume "k \<in> {k. k < length bs \<and> bs[i := v] ! k \<noteq> bs ! k}"
    then have "bs[i := v] ! k \<noteq> bs ! k" by simp
    then have "k = i" using nth_list_update_neq [of i k bs v] by blast
    then show "k \<in> {i}" by simp
  qed
  then have "card {k. k < length bs \<and> bs[i := v] ! k \<noteq> bs ! k} \<le> card {i}"
    by (intro card_mono) auto
  then show ?thesis by simp
qed

lemma collides_within: "(b_alive b \<and> collides_with b px py 15) = within_hit_radius b px py"
  by (simp add: collides_with_def within_hit_radius_def)

lemma shoot_accepted:
  "\<not> current_time - last_shoot_time g < SHOOT_COOLDOWN \<Longrightarrow>
   shoot g current_time x y =
     (let vx = x / 1000 * 480; vy = y / 1000 * 270;
          res = hit_scan (balloons g) vx vy 15 (score g) (balloons_popped g)
      in g\<lparr> shoot_effects := shoot_effects g @ [ShootEffect_init vx vy],
            balloons := fst res, score := fst (snd res), balloons_popped := snd (snd res),
            last_shoot_time := current_time \<rparr>)"
  by (simp add: shoot_def Let_def VIRTUAL_WIDTH_def VIRTUAL_HEIGHT_def split: prod.splits)

text \<open>
  C2. A shot within the cooldown of 0.3 s after the last accepted one leaves the game as
  it was. An accepted shot appends one effect, new and alive, whose position is the
  mapped one, \<open>(x / 1000 * 480, y / 1000 * 270)\<close>, and records its time; a second shot
  0.1 s later changes nothing, and if there was no effect before the pair there is
  exactly one after it.
\<close>

theorem shoot_cooldown:
  "(current_time - last_shoot_time g < SHOOT_COOLDOWN \<longrightarrow> shoot g current_time x y = g)
   \<and> (\<not> current_time - last_shoot_time g < SHOOT_COOLDOWN \<longrightarrow>
        shoot_effects (shoot g current_time x y)
          = shoot_effects g @
              [\<lparr> e_x = x / 1000 * 480, e_y = y / 1000 * 270, e_radius = 3, e_max_radius = 20,
                 e_alive = True, e_lifetime = 0.3, e_age = 0 \<rparr>]
        \<and> e_x (last (shoot_effects (shoot g current_time x y))) = x / 1000 * 480
        \<and> e_y (last (shoot_effects (shoot g current_time x y))) = y / 1000 * 270
        \<and> last_shoot_time (shoot g current_time x y) = current_time
        \<and> shoot (shoot g current_time x y) (current_time + 0.1) x' y' = shoot g current_time x y
        \<and> (shoot_effects g = [] \<longrightarrow>
             length (shoot_effects (shoot (shoot g current_time x y) (current_time + 0.1) x' y')) = 1))
   \<and> SHOOT_COOLDOWN = 0.3"
proof (intro conjI impI)
  assume "current_time - last_shoot_time g < SHOOT_COOLDOWN"
  then show "shoot g current_time x y = g" by (simp add: shoot_def)
next
  assume a: "\<not> current_time - last_shoot_time g < SHOOT_COOLDOWN"
  show e: "shoot_effects (shoot g current_time x y)
          = shoot_effects g @
              [\<lparr> e_x = x / 1000 * 480, e_y = y / 1000 * 270, e_radius = 3, e_max_radius = 20,
                 e_alive = True, e_lifetime = 0.3, e_age = 0 \<rparr>]"
    by (simp add: shoot_accepted [OF a] Let_def ShootEffect_init_def)
  then show "e_x (last (shoot_effects (shoot g current_time x y))) = x / 1000 * 480"
    and "e_y (last (shoot_effects (shoot g current_time x y))) = y / 1000 * 270"
    by simp_all
  show l: "last_shoot_time (shoot g current_time x y) = current_time"
    by (simp add: shoot_accepted [OF a] Let_def)
  have "current_time + 0.1 - last_shoot_time (shoot g current_time x y) < SHOOT_COOLDOWN"
    by (simp add: l SHOOT_COOLDOWN_def)
  then show s: "shoot (shoot g current_time x y) (current_time + 0.1) x' y' = shoot g current_time x y"
    by (simp add: shoot_def [of "shoot g current_time x y"])
  assume "shoot_effects g = []"
  with e s show "length (shoot_effects (shoot (shoot g current_time x y) (current_time + 0.1) x' y')) = 1"
    by simp
next
  show "SHOOT_COOLDOWN = 0.3" by (simp add: SHOOT_COOLDOWN_def)
qed

theorem shoot_cooldown_witness:
  "\<not> 100 - last_shoot_time Game_init < SHOOT_COOLDOWN
   \<and> shoot_effects Game_init = []
   \<and> shoot_effects (shoot Game_init 100 500 500)
       = [\<lparr> e_x = 240, e_y = 135, e_radius = 3, e_max_radius = 20, e_alive = True,
            e_lifetime = 0.3, e_age = 0 \<rparr>]
   \<and> e_x (last (shoot_effects (shoot Game_init 100 500 500))) = 240
   \<and> e_y (last (shoot_effects (shoot Game_init 100 500 500))) = 135
   \<and> 100 + 0.1 - last_shoot_time (shoot Game_init 100 500 500) < SHOOT_COOLDOWN
   \<and> shoot (shoot Game_init 100 500 500) (100 + 0.1) 250 250 = shoot Game_init 100 500 500
   \<and> length (shoot_effects (shoot (shoot Game_init 100 500 500) (100 + 0.1) 250 250)) = 1"
proof -
  have a: "\<not> 100 - last_shoot_time Game_init < SHOOT_COOLDOWN"
    by (simp add: Game_init_def SHOOT_COOLDOWN_def)
  have e: "shoot_effects Game_init = []"
    by (simp add: Game_init_def)
  from shoot_cooldown [of 100 Game_init 500 500 250 250] a e show ?thesis
    by (simp add: SHOOT_COOLDOWN_def)
qed

text \<open>
  C1. An accepted shot at \<open>(x, y)\<close>, mapped to \<open>(px, py)\<close>, changes at most one balloon of
  the list. If no live balloon is within reach, balloons, score and popped counter stay.
  Otherwise the first balloon within reach in list order is marked dead and no other,
  its score value is added to the score, and the popped counter grows by one exactly
  when that score value is positive.
\<close>

theorem shoot_hits_first_in_order:
  assumes accepted: "\<not> current_time - last_shoot_time g < SHOOT_COOLDOWN"
  shows "let px = x / 1000 * 480; py = y / 1000 * 270; bs = balloons g;
             g' = shoot g current_time x y
         in length (balloons g') = length bs
            \<and> card {k. k < length bs \<and> balloons g' ! k \<noteq> bs ! k} \<le> 1
            \<and> ((\<forall>b \<in> set bs. \<not> within_hit_radius b px py) \<longrightarrow>
                  balloons g' = bs \<and> score g' = score g
                  \<and> balloons_popped g' = balloons_popped g)
            \<and> (\<forall>i < length bs.
                  within_hit_radius (bs ! i) px py
                  \<and> (\<forall>j < i. \<not> within_hit_radius (bs ! j) px py) \<longrightarrow>
                  balloons g' = bs[i := (bs ! i)\<lparr> b_alive := False \<rparr>]
                  \<and> score g' = score g + b_score_value (bs ! i)
                  \<and> balloons_popped g'
                      = balloons_popped g + (if b_score_value (bs ! i) > 0 then 1 else 0))"
proof -
  define px where "px = x / 1000 * 480"
  define py where "py = y / 1000 * 270"
  define bs where "bs = balloons g"
  define res where "res = hit_scan bs px py 15 (score g) (balloons_popped g)"
  define g' where "g' = shoot g current_time x y"
  have g': "balloons g' = fst res" "score g' = fst (snd res)" "balloons_popped g' = snd (snd res)"
    unfolding g'_def res_def bs_def px_def py_def
    by (simp_all add: shoot_accepted [OF accepted] Let_def)
  have len: "length (balloons g') = length bs"
    using hit_scan_cases [of bs px py 15 "score g" "balloons_popped g"]
    by (auto simp: g' res_def)
  have one: "card {k. k < length bs \<and> balloons g' ! k \<noteq> bs ! k} \<le> 1"
  proof -
    from hit_scan_cases [of bs px py 15 "score g" "balloons_popped g"]
    have "balloons g' = bs \<or> (\<exists>i < length bs. balloons g' = bs[i := (bs ! i)\<lparr> b_alive := False \<rparr>])"
      by (auto simp: g' res_def)
    then show ?thesis
    proof
      assume "balloons g' = bs"
      then show ?thesis by simp
    next
      assume "\<exists>i < length bs. balloons g' = bs[i := (bs ! i)\<lparr> b_alive := False \<rparr>]"
      then obtain i where "balloons g' = bs[i := (bs ! i)\<lparr> b_alive := False \<rparr>]" by blast
      then show ?thesis using changed_at_most_one [of bs i "(bs ! i)\<lparr> b_alive := False \<rparr>"]
        by simp
    qed
  qed
  have miss: "(\<forall>b \<in> set bs. \<not> within_hit_radius b px py) \<longrightarrow>
      balloons g' = bs \<and> score g' = score g \<and> balloons_popped g' = balloons_popped g"
  proof
    assume "\<forall>b \<in> set bs. \<not> within_hit_radius b px py"
    then have "\<forall>b \<in> set bs. \<not> (b_alive b \<and> collides_with b px py 15)"
      by (simp add: collides_within)
    from hit_scan_miss [OF this] show "balloons g' = bs \<and> score g' = score g
        \<and> balloons_popped g' = balloons_popped g"
      by (simp add: g' res_def)
  qed
  have hit: "\<forall>i < length bs.
      within_hit_radius (bs ! i) px py \<and> (\<forall>j < i. \<not> within_hit_radius (bs ! j) px py) \<longrightarrow>
      balloons g' = bs[i := (bs ! i)\<lparr> b_alive := False \<rparr>]
      \<and> score g' = score g + b_score_value (bs ! i)
      \<and> balloons_popped g' = balloons_popped g + (if b_score_value (bs ! i) > 0 then 1 else 0)"
  proof (intro allI impI)
    fix i assume i: "i < length bs"
    assume h: "within_hit_radius (bs ! i) px py \<and> (\<forall>j < i. \<not> within_hit_radius (bs ! j) px py)"
    then have a: "b_alive (bs ! i) \<and> collides_with (bs ! i) px py 15"
      by (simp add: collides_within)
    from h have b: "\<forall>j < i. \<not> (b_alive (bs ! j) \<and> collides_with (bs ! j) px py 15)"
      by (simp add: collides_within)
    from hit_scan_first [OF i a b, of "score g" "balloons_popped g"]
    show "balloons g' = bs[i := (bs ! i)\<lparr> b_alive := False \<rparr>]
      \<and> score g' = score g + b_score_value (bs ! i)
      \<and> balloons_popped g' = balloons_popped g + (if b_score_value (bs ! i) > 0 then 1 else 0)"
      by (simp add: g' res_def)
  qed
  from len one miss hit show ?thesis
    unfolding Let_def px_def [symmetric] py_def [symmetric] bs_def [symmetric] g'_def [symmetric]
    by blast
qed

theorem shoot_hits_first_in_order_witness:
  "\<not> 100 - last_shoot_time overlapping_pair < SHOOT_COOLDOWN
   \<and> within_hit_radius (balloons overlapping_pair ! 0) 240 135
   \<and> within_hit_radius (balloons overlapping_pair ! 1) 240 135
   \<and> balloons (shoot overlapping_pair 100 500 500)
       = [(Balloon_init 240 135 (255, 99, 71) 20 ''penalty'')\<lparr> b_alive := False \<rparr>,
          Balloon_init 240 135 (255, 99, 71) 20 ''bonus'']
   \<and> score (shoot overlapping_pair 100 500 500) = - 30
   \<and> balloons_popped (shoot overlapping_pair 100 500 500) = 0"
proof -
  have a: "\<not> 100 - last_shoot_time overlapping_pair < SHOOT_COOLDOWN"
    by (simp add: overlapping_pair_def Game_init_def SHOOT_COOLDOWN_def)
  have w: "within_hit_radius (balloons overlapping_pair ! 0) 240 135"
      "within_hit_radius (balloons overlapping_pair ! 1) 240 135"
    by (simp_all add: overlapping_pair_def within_hit_radius_def Balloon_init_def BALLOON_SIZE_def)
  have k: "(500::real) / 1000 * 480 = 240" "(500::real) / 1000 * 270 = 135"
    by simp_all
  note t = shoot_hits_first_in_order [OF a, of 500 500, unfolded Let_def k]
  then have "\<forall>i < length (balloons overlapping_pair).
      within_hit_radius (balloons overlapping_pair ! i) 240 135
      \<and> (\<forall>j < i. \<not> within_hit_radius (balloons overlapping_pair ! j) 240 135) \<longrightarrow>
      balloons (shoot overlapping_pair 100 500 500)
        = (balloons overlapping_pair)[i := (balloons overlapping_pair ! i)\<lparr> b_alive := False \<rparr>]
      \<and> score (shoot overlapping_pair 100 500 500)
        = score overlapping_pair + b_score_value (balloons overlapping_pair ! i)
      \<and> balloons_popped (shoot overlapping_pair 100 500 500)
        = balloons_popped overlapping_pair
          + (if b_score_value (balloons overlapping_pair ! i) > 0 then 1 else 0)"
    by blast
  from this [rule_format, of 0] w(1)
  have "balloons (shoot overlapping_pair 100 500 500)
          = (balloons overlapping_pair)[0 := (balloons overlapping_pair ! 0)\<lparr> b_alive := False \<rparr>]
        \<and> score (shoot overlapping_pair 100 500 500)
          = score overlapping_pair + b_score_value (balloons overlapping_pair ! 0)
        \<and> balloons_popped (shoot overlapping_pair 100 500 500)
          = balloons_popped overlapping_pair
            + (if b_score_value (balloons overlapping_pair ! 0) > 0 then 1 else 0)"
    by (simp add: overlapping_pair_def)
  then have "balloons (shoot overlapping_pair 100 500 500)
       = [(Balloon_init 240 135 (255, 99, 71) 20 ''penalty'')\<lparr> b_alive := False \<rparr>,
          Balloon_init 240 135 (255, 99, 71) 20 ''bonus'']
   \<and> score (shoot overlapping_pair 100 500 500) = - 30
   \<and> balloons_popped (shoot overlapping_pair 100 500 500) = 0"
    by (simp add: overlapping_pair_def Game_init_def Balloon_init_def)
  with a w show ?thesis by simp
qed

section \<open>The weighted draw of the balloon type\<close>

lemma binary64_binade:
  assumes "0 < x" "2 powr of_int e \<le> x" "x < 2 powr of_int (e + 1)"
  shows "binary64 x = of_int (round_half_even (x * 2 powr of_int (52 - e))) * 2 powr of_int (e - 52)"
proof -
  have "\<lfloor>log 2 x\<rfloor> = e"
    using assms floor_log_eq_powr_iff [of x 2 e] by simp
  with assms(1) show ?thesis by (simp add: binary64_def Let_def)
qed

text \<open>The literals of the table and the cumulative probabilities, as binary64 values.\<close>

lemma binary64_0_35: "binary64 0.35 = 3152519739159347 / 9007199254740992"
  using binary64_binade [of "0.35" "- 2"]
  by (simp add: powr_neg_numeral round_half_even_def Let_def)

lemma binary64_0_20: "binary64 0.20 = 3602879701896397 / 18014398509481984"
  using binary64_binade [of "0.20" "- 3"]
  by (simp add: powr_neg_numeral round_half_even_def Let_def)

lemma binary64_0_10: "binary64 0.10 = 3602879701896397 / 36028797018963968"
  using binary64_binade [of "0.10" "- 4"]
  by (simp add: powr_neg_numeral round_half_even_def Let_def)

lemma binary64_0_05: "binary64 0.05 = 3602879701896397 / 72057594037927936"
  using binary64_binade [of "0.05" "- 5"]
  by (simp add: powr_neg_numeral round_half_even_def Let_def)

lemma binary64_0_55: "binary64 0.55 = 2476979795053773 / 4503599627370496"
  using binary64_binade [of "0.55" "- 1"]
  by (simp add: powr_neg_numeral round_half_even_def Let_def)

lemma binary64_0_75: "binary64 0.75 = 3 / 4"
  using binary64_binade [of "0.75" "- 1"]
  by (simp add: powr_neg_numeral round_half_even_def Let_def)

lemma binary64_0_85: "binary64 0.85 = 7656119366529843 / 9007199254740992"
  using binary64_binade [of "0.85" "- 1"]
  by (simp add: powr_neg_numeral round_half_even_def Let_def)

lemma binary64_0_95: "binary64 0.95 = 4278419646001971 / 4503599627370496"
  using binary64_binade [of "0.95" "- 1"]
  by (simp add: powr_neg_numeral round_half_even_def Let_def)

lemma binary64_sum_0:
  "binary64 (0 + 3152519739159347 / 9007199254740992) = 3152519739159347 / 9007199254740992"
  using binary64_binade [of "0 + 3152519739159347 / 9007199254740992" "- 2"]
  by (simp add: powr_neg_numeral round_half_even_def Let_def)

lemma binary64_sum_1:
  "binary64 (3152519739159347 / 9007199254740992 + 3602879701896397 / 18014398509481984) = 2476979795053773 / 4503599627370496"
  using binary64_binade [of "3152519739159347 / 9007199254740992 + 3602879701896397 / 18014398509481984" "- 1"]
  by (simp add: powr_neg_numeral round_half_even_def Let_def)

lemma binary64_sum_2:
  "binary64 (2476979795053773 / 4503599627370496 + 3602879701896397 / 18014398509481984) = 3 / 4"
  using binary64_binade [of "2476979795053773 / 4503599627370496 + 3602879701896397 / 18014398509481984" "- 1"]
  by (simp add: powr_neg_numeral round_half_even_def Let_def)

lemma binary64_sum_3:
  "binary64 (3 / 4 + 3602879701896397 / 36028797018963968) = 7656119366529843 / 9007199254740992"
  using binary64_binade [of "3 / 4 + 3602879701896397 / 36028797018963968" "- 1"]
  by (simp add: powr_neg_numeral round_half_even_def Let_def)

lemma binary64_sum_4:
  "binary64 (7656119366529843 / 9007199254740992 + 3602879701896397 / 36028797018963968) = 4278419646001971 / 4503599627370496"
  using binary64_binade [of "7656119366529843 / 9007199254740992 + 3602879701896397 / 36028797018963968" "- 1"]
  by (simp add: powr_neg_numeral round_half_even_def Let_def)

lemma binary64_sum_5:
  "binary64 (4278419646001971 / 4503599627370496 + 3602879701896397 / 72057594037927936) = 1"
  using binary64_binade [of "4278419646001971 / 4503599627370496 + 3602879701896397 / 72057594037927936" "- 1"]
  by (simp add: powr_neg_numeral round_half_even_def Let_def)

lemmas binary64_values =
  binary64_0_35 binary64_0_20 binary64_0_10 binary64_0_05
  binary64_0_55 binary64_0_75 binary64_0_85 binary64_0_95
  binary64_sum_0 binary64_sum_1 binary64_sum_2 binary64_sum_3 binary64_sum_4 binary64_sum_5

lemma cumulative_BALLOON_TYPES:
  "cumulative 0 BALLOON_TYPES 0 = binary64 0.35"
  "cumulative 0 BALLOON_TYPES (Suc 0) = binary64 0.55"
  "cumulative 0 BALLOON_TYPES (Suc (Suc 0)) = binary64 0.75"
  "cumulative 0 BALLOON_TYPES (Suc (Suc (Suc 0))) = binary64 0.85"
  "cumulative 0 BALLOON_TYPES (Suc (Suc (Suc (Suc 0)))) = binary64 0.95"
  "cumulative 0 BALLOON_TYPES (Suc (Suc (Suc (Suc (Suc 0))))) = 1"
  by (simp_all only: BALLOON_TYPES_def cumulative.simps binary64_values)

lemma choose_type_first:
  "i < length items \<Longrightarrow> v \<le> cumulative acc items i \<Longrightarrow>
   \<forall>j < i. \<not> v \<le> cumulative acc items j \<Longrightarrow>
   choose_type items v acc d = fst (items ! i)"
proof (induction items arbitrary: i acc)
  case Nil
  then show ?case by simp
next
  case (Cons a items)
  obtain btype prob where a: "a = (btype, prob)" by (cases a)
  show ?case
  proof (cases i)
    case 0
    with Cons.prems a show ?thesis by simp
  next
    case (Suc k)
    from Cons.prems(3) Suc have "\<not> v \<le> cumulative acc (a # items) 0" by blast
    then have n0: "\<not> v \<le> binary64 (acc + prob)" using a by simp
    have k: "k < length items" using Cons.prems(1) Suc by simp
    have c: "v \<le> cumulative (binary64 (acc + prob)) items k"
      using Cons.prems(2) Suc a by simp
    have nj: "\<forall>j < k. \<not> v \<le> cumulative (binary64 (acc + prob)) items j"
    proof (intro allI impI)
      fix j assume "j < k"
      then have "Suc j < i" using Suc by simp
      with Cons.prems(3) have "\<not> v \<le> cumulative acc (a # items) (Suc j)" by blast
      then show "\<not> v \<le> cumulative (binary64 (acc + prob)) items j"
        using a by simp
    qed
    from Cons.IH [OF k c nj] n0 a Suc show ?thesis by simp
  qed
qed

lemma choose_type_thresholds:
  "choose_type BALLOON_TYPES v 0 ''normal'' =
     (if v \<le> binary64 0.35 then ''normal'' else if v \<le> binary64 0.55 then ''bonus''
      else if v \<le> binary64 0.75 then ''penalty'' else if v \<le> binary64 0.85 then ''fast''
      else if v \<le> binary64 0.95 then ''zigzag'' else if v \<le> 1 then ''ultra_rare''
      else ''normal'')"
  by (simp only: BALLOON_TYPES_def choose_type.simps Let_def binary64_values)

lemma spawn_balloon_appends:
  "balloons (spawn_balloon g r) =
     balloons g @
       [Balloon_init (of_int (randint_x r)) (of_int (VIRTUAL_HEIGHT + BALLOON_SIZE))
          (choice_color r) (uniform_speed r)
          (choose_type BALLOON_TYPES (random_val r) 0 ''normal'')]"
  by (simp add: spawn_balloon_def Let_def)

lemma Balloon_init_type: "b_balloon_type (Balloon_init x y c s ty) = ty"
  by (simp add: Balloon_init_def)

text \<open>
  C4. The balloon that \<^verbatim>\<open>spawn_balloon\<close> appends has the type that the draw selects. For a
  drawn value of at most 1 that is the first category, in the order normal, bonus,
  penalty, fast, zigzag, ultra rare, whose cumulative probability is at least the drawn
  value; the cumulative probabilities are the floats 0.35, 0.55, 0.75, 0.85, 0.95 and
  1.0, the sums of the floats 0.35, 0.20, 0.20, 0.10, 0.10 and 0.05 from the left. The
  drawn value 1.0 gives ultra rare and does not fall through to normal.
\<close>

theorem weighted_draw_first_category:
  "(v \<le> 1 \<longrightarrow>
      (\<exists>i < length BALLOON_TYPES.
         choose_type BALLOON_TYPES v 0 ''normal'' = fst (BALLOON_TYPES ! i)
         \<and> v \<le> cumulative 0 BALLOON_TYPES i
         \<and> (\<forall>j < i. cumulative 0 BALLOON_TYPES j < v)))
   \<and> BALLOON_TYPES =
       [(''normal'', binary64 0.35), (''bonus'', binary64 0.20), (''penalty'', binary64 0.20),
        (''fast'', binary64 0.10), (''zigzag'', binary64 0.10), (''ultra_rare'', binary64 0.05)]
   \<and> map (cumulative 0 BALLOON_TYPES) [0, 1, 2, 3, 4, 5] =
       [binary64 0.35, binary64 0.55, binary64 0.75, binary64 0.85, binary64 0.95, 1]
   \<and> choose_type BALLOON_TYPES v 0 ''normal'' =
       (if v \<le> binary64 0.35 then ''normal'' else if v \<le> binary64 0.55 then ''bonus''
        else if v \<le> binary64 0.75 then ''penalty'' else if v \<le> binary64 0.85 then ''fast''
        else if v \<le> binary64 0.95 then ''zigzag'' else if v \<le> 1 then ''ultra_rare''
        else ''normal'')
   \<and> choose_type BALLOON_TYPES 1 0 ''normal'' = ''ultra_rare''
   \<and> length (balloons (spawn_balloon g r)) = length (balloons g) + 1
   \<and> butlast (balloons (spawn_balloon g r)) = balloons g
   \<and> b_balloon_type (last (balloons (spawn_balloon g r)))
       = choose_type BALLOON_TYPES (random_val r) 0 ''normal''
   \<and> (random_val r = 1 \<longrightarrow>
        b_balloon_type (last (balloons (spawn_balloon g r))) = ''ultra_rare'')"
proof (intro conjI impI)
  assume v: "v \<le> 1"
  define P where "P = (\<lambda>i. i < length BALLOON_TYPES \<and> v \<le> cumulative 0 BALLOON_TYPES i)"
  have len: "length BALLOON_TYPES = 6" by (simp add: BALLOON_TYPES_def)
  have "P (Suc (Suc (Suc (Suc (Suc 0)))))"
    using v by (simp add: P_def cumulative_BALLOON_TYPES len)
  define i where "i = (LEAST i. P i)"
  have Pi: "P i" unfolding i_def using \<open>P (Suc (Suc (Suc (Suc (Suc 0)))))\<close> by (rule LeastI)
  have least: "\<forall>j < i. \<not> P j"
    unfolding i_def using not_less_Least by blast
  have i: "i < length BALLOON_TYPES" and c: "v \<le> cumulative 0 BALLOON_TYPES i"
    using Pi by (simp_all add: P_def)
  have nj: "\<forall>j < i. \<not> v \<le> cumulative 0 BALLOON_TYPES j"
  proof (intro allI impI)
    fix j assume j: "j < i"
    with least have "\<not> P j" by blast
    moreover from j i have "j < length BALLOON_TYPES" by simp
    ultimately show "\<not> v \<le> cumulative 0 BALLOON_TYPES j" by (simp add: P_def)
  qed
  from choose_type_first [OF i c nj]
  have "choose_type BALLOON_TYPES v 0 ''normal'' = fst (BALLOON_TYPES ! i)" .
  moreover from nj have "\<forall>j < i. cumulative 0 BALLOON_TYPES j < v" by (simp add: not_le)
  ultimately show "\<exists>i < length BALLOON_TYPES.
         choose_type BALLOON_TYPES v 0 ''normal'' = fst (BALLOON_TYPES ! i)
         \<and> v \<le> cumulative 0 BALLOON_TYPES i
         \<and> (\<forall>j < i. cumulative 0 BALLOON_TYPES j < v)"
    using i c by auto
next
  show "BALLOON_TYPES =
       [(''normal'', binary64 0.35), (''bonus'', binary64 0.20), (''penalty'', binary64 0.20),
        (''fast'', binary64 0.10), (''zigzag'', binary64 0.10), (''ultra_rare'', binary64 0.05)]"
    by (rule BALLOON_TYPES_def)
next
  have n: "(1::nat) = Suc 0" "(2::nat) = Suc (Suc 0)" "(3::nat) = Suc (Suc (Suc 0))"
    "(4::nat) = Suc (Suc (Suc (Suc 0)))" "(5::nat) = Suc (Suc (Suc (Suc (Suc 0))))"
    by simp_all
  show "map (cumulative 0 BALLOON_TYPES) [0, 1, 2, 3, 4, 5] =
       [binary64 0.35, binary64 0.55, binary64 0.75, binary64 0.85, binary64 0.95, 1]"
    by (simp only: n list.map cumulative_BALLOON_TYPES)
next
  show "choose_type BALLOON_TYPES v 0 ''normal'' =
       (if v \<le> binary64 0.35 then ''normal'' else if v \<le> binary64 0.55 then ''bonus''
        else if v \<le> binary64 0.75 then ''penalty'' else if v \<le> binary64 0.85 then ''fast''
        else if v \<le> binary64 0.95 then ''zigzag'' else if v \<le> 1 then ''ultra_rare''
        else ''normal'')"
    by (rule choose_type_thresholds)
next
  show one: "choose_type BALLOON_TYPES 1 0 ''normal'' = ''ultra_rare''"
    unfolding choose_type_thresholds binary64_values by simp
  show "length (balloons (spawn_balloon g r)) = length (balloons g) + 1"
    by (simp add: spawn_balloon_appends)
  show "butlast (balloons (spawn_balloon g r)) = balloons g"
    by (simp add: spawn_balloon_appends)
  show t: "b_balloon_type (last (balloons (spawn_balloon g r)))
       = choose_type BALLOON_TYPES (random_val r) 0 ''normal''"
    by (simp add: spawn_balloon_appends Balloon_init_type)
  assume "random_val r = 1"
  with t one show "b_balloon_type (last (balloons (spawn_balloon g r))) = ''ultra_rare''"
    by simp
qed

theorem weighted_draw_first_category_witness:
  "(1::real) \<le> 1
   \<and> choose_type BALLOON_TYPES 1 0 ''normal'' = ''ultra_rare''
   \<and> random_val (some_draws\<lparr> random_val := 1 \<rparr>) = 1
   \<and> b_balloon_type (last (balloons (spawn_balloon Game_init (some_draws\<lparr> random_val := 1 \<rparr>))))
       = ''ultra_rare''
   \<and> binary64 0.55 \<le> cumulative 0 BALLOON_TYPES 1
   \<and> cumulative 0 BALLOON_TYPES 0 < binary64 0.55
   \<and> choose_type BALLOON_TYPES (binary64 0.55) 0 ''normal'' = ''bonus''"
proof -
  have a: "cumulative 0 BALLOON_TYPES 0 < binary64 0.55"
    unfolding cumulative_BALLOON_TYPES binary64_values by simp
  have b: "choose_type BALLOON_TYPES (binary64 0.55) 0 ''normal'' = ''bonus''"
    unfolding choose_type_thresholds binary64_values by simp
  note t = weighted_draw_first_category [of 1 Game_init "some_draws\<lparr> random_val := 1 \<rparr>"]
  have o: "(1::real) \<le> 1" by simp
  have rv: "random_val (some_draws\<lparr> random_val := 1 \<rparr>) = 1" by simp
  from t have w1: "choose_type BALLOON_TYPES 1 0 ''normal'' = ''ultra_rare''"
    by (elim conjE)
  from t rv
  have w2: "b_balloon_type (last (balloons (spawn_balloon Game_init (some_draws\<lparr> random_val := 1 \<rparr>))))
       = ''ultra_rare''"
    by (elim conjE) simp
  have c1: "binary64 0.55 \<le> cumulative 0 BALLOON_TYPES 1"
    by (simp only: One_nat_def cumulative_BALLOON_TYPES order_refl)
  show ?thesis using o w1 rv w2 c1 a b by blast
qed

section \<open>The end of the game\<close>

lemma Game_update_time_up:
  "state g = ''RUN'' \<Longrightarrow> current_time - game_start_time g \<ge> of_int GAME_DURATION \<Longrightarrow>
   Game_update g current_time r dt = g\<lparr> state := ''RESULT'' \<rparr>"
  by (simp add: Game_update_def)

lemma Game_update_keeps:
  "score (Game_update g current_time r dt) = score g
   \<and> balloons_popped (Game_update g current_time r dt) = balloons_popped g
   \<and> game_start_time (Game_update g current_time r dt) = game_start_time g
   \<and> last_shoot_time (Game_update g current_time r dt) = last_shoot_time g
   \<and> running (Game_update g current_time r dt) = running g"
  by (simp add: Game_update_def Let_def spawn_balloon_def)

lemma Game_update_state:
  "state g = ''RUN'' \<or> state g = ''RESULT'' \<Longrightarrow>
   state (Game_update g current_time r dt) = ''RUN'' \<or> state (Game_update g current_time r dt) = ''RESULT''"
  by (auto simp: Game_update_def Let_def spawn_balloon_def)

lemma run_updates_keeps:
  "score (run_updates g ticks) = score g
   \<and> balloons_popped (run_updates g ticks) = balloons_popped g
   \<and> game_start_time (run_updates g ticks) = game_start_time g"
proof (induction ticks arbitrary: g)
  case Nil
  then show ?case by (simp add: run_updates_def)
next
  case (Cons a ticks)
  obtain t r dt where a: "a = (t, r, dt)" by (cases a)
  have "run_updates g (a # ticks) = run_updates (Game_update g t r dt) ticks"
    by (simp add: run_updates_def a)
  with Cons.IH [of "Game_update g t r dt"] show ?case
    by (simp add: Game_update_keeps)
qed

lemma run_updates_state:
  "state g = ''RUN'' \<or> state g = ''RESULT'' \<Longrightarrow>
   state (run_updates g ticks) = ''RUN'' \<or> state (run_updates g ticks) = ''RESULT''"
proof (induction ticks arbitrary: g)
  case Nil
  then show ?case by (simp add: run_updates_def)
next
  case (Cons a ticks)
  obtain t r dt where a: "a = (t, r, dt)" by (cases a)
  have "run_updates g (a # ticks) = run_updates (Game_update g t r dt) ticks"
    by (simp add: run_updates_def a)
  with Cons.IH [OF Game_update_state [OF Cons.prems, of t r dt]] show ?case
    by simp
qed

text \<open>
  C7. An update in state RUN whose clock reading is at least the game duration after the
  start sets the state to RESULT and changes nothing else: no spawn, no balloon or effect
  advanced or pruned, score and popped counter as before. Hence a game that is started
  and only updated, whatever the updates in between, is in state RESULT after the update
  at the start time plus the game duration, with score 0, popped 0 and ticket \<open>-90\<close>.
\<close>

theorem game_over_at_duration:
  "(state g = ''RUN'' \<and> current_time - game_start_time g \<ge> of_int GAME_DURATION \<longrightarrow>
      Game_update g current_time r dt = g\<lparr> state := ''RESULT'' \<rparr>)
   \<and> (let g' = Game_update (run_updates (start_game g0 t0 t1) ticks)
                  (t0 + of_int GAME_DURATION) r dt
       in state g' = ''RESULT'' \<and> score g' = 0 \<and> balloons_popped g' = 0
          \<and> fst (calculate_time_tickets g') = - 90)"
proof (intro conjI impI)
  assume "state g = ''RUN'' \<and> current_time - game_start_time g \<ge> of_int GAME_DURATION"
  then show "Game_update g current_time r dt = g\<lparr> state := ''RESULT'' \<rparr>"
    by (simp add: Game_update_time_up)
next
  define g1 where "g1 = run_updates (start_game g0 t0 t1) ticks"
  define g' where "g' = Game_update g1 (t0 + of_int GAME_DURATION) r dt"
  have k: "score g1 = 0" "balloons_popped g1 = 0" "game_start_time g1 = t0"
    unfolding g1_def by (simp_all add: run_updates_keeps start_game_def)
  have "state (start_game g0 t0 t1) = ''RUN'' \<or> state (start_game g0 t0 t1) = ''RESULT''"
    by (simp add: start_game_def)
  from run_updates_state [OF this, of ticks]
  have "state g1 = ''RUN'' \<or> state g1 = ''RESULT''" by (simp add: g1_def)
  then have s: "state g' = ''RESULT''"
  proof
    assume "state g1 = ''RUN''"
    then show ?thesis unfolding g'_def
      by (simp add: Game_update_time_up k)
  next
    assume "state g1 = ''RESULT''"
    then show ?thesis unfolding g'_def by (simp add: Game_update_def)
  qed
  have v: "score g' = 0" "balloons_popped g' = 0"
    unfolding g'_def by (simp_all add: Game_update_keeps k)
  then have "fst (calculate_time_tickets g') = - 90"
    by (simp add: calculate_time_tickets_def)
  with s v show "let g' = Game_update (run_updates (start_game g0 t0 t1) ticks)
                  (t0 + of_int GAME_DURATION) r dt
       in state g' = ''RESULT'' \<and> score g' = 0 \<and> balloons_popped g' = 0
          \<and> fst (calculate_time_tickets g') = - 90"
    unfolding Let_def g'_def g1_def by simp
qed

theorem game_over_at_duration_witness:
  "state fresh_game_1000 = ''RUN''
   \<and> 1030 - game_start_time fresh_game_1000 \<ge> of_int GAME_DURATION
   \<and> Game_update fresh_game_1000 1030 some_draws 0.1 = fresh_game_1000\<lparr> state := ''RESULT'' \<rparr>
   \<and> state (Game_update (run_updates fresh_game_1000 [(1010, some_draws, 0.1)]) 1030 some_draws 0.1)
       = ''RESULT''"
proof -
  have a: "state fresh_game_1000 = ''RUN''"
      "1030 - game_start_time fresh_game_1000 \<ge> of_int GAME_DURATION"
    by (simp_all add: fresh_game_1000_def start_game_def GAME_DURATION_def)
  have t: "(1000::real) + of_int GAME_DURATION = 1030" by (simp add: GAME_DURATION_def)
  from game_over_at_duration [of fresh_game_1000 1030 some_draws "0.1" Game_init 1000 1000
      "[(1010, some_draws, 0.1)]"] a
  show ?thesis by (simp add: Let_def t fresh_game_1000_def [symmetric])
qed

section \<open>The gesture classifier\<close>

lemma landmark_at_21:
  "length h = 21 \<Longrightarrow> i < 21 \<Longrightarrow> landmark_at h i = Some (h ! i)"
  by (simp add: landmark_at_def)

lemma is_finger_extended_21:
  "length h = 21 \<Longrightarrow> tip < 21 \<Longrightarrow> pip < 21 \<Longrightarrow>
   is_finger_extended h tip pip = Some (finger_up h tip pip)"
  by (simp add: is_finger_extended_def landmark_at_21 finger_up_def)

lemma detect_gun_gesture_21:
  assumes "length h = 21"
  shows "detect_gun_gesture h =
     Some (if strict_gun h \<and> 225 \<le> pointing_angle h \<and> pointing_angle h \<le> 315
           then (Some (index_tip_position h), False, None)
           else (None, True, Some (index_tip_position h)))"
  unfolding detect_gun_gesture_def INDEX_TIP_def INDEX_PIP_def MIDDLE_TIP_def MIDDLE_PIP_def
    RING_TIP_def RING_PIP_def PINKY_TIP_def PINKY_PIP_def WRIST_def
  using assms
  by (simp add: landmark_at_21 is_finger_extended_21 Let_def strict_gun_def pointing_angle_def
      index_tip_position_def)

lemma arctan2_bounds: "- pi < arctan2 y x \<and> arctan2 y x \<le> pi"
proof -
  have l: "- (pi / 2) < arctan (y / x)" and u: "arctan (y / x) < pi / 2"
    by (rule arctan_lbound, rule arctan_ubound)
  have p: "0 < pi" by simp
  consider "x > 0" | "x < 0" "y \<ge> 0" | "x < 0" "y < 0" | "x = 0"
    by linarith
  then show ?thesis
  proof cases
    case 1
    then have "arctan2 y x = arctan (y / x)" by (simp add: arctan2_def)
    with l u p show ?thesis by linarith
  next
    case 2
    then have "y / x \<le> 0" by (simp add: divide_nonneg_neg)
    then have "arctan (y / x) \<le> 0" using arctan_le_zero_iff by blast
    moreover from 2 have "arctan2 y x = arctan (y / x) + pi" by (simp add: arctan2_def)
    ultimately show ?thesis using l p by linarith
  next
    case 3
    then have "0 < y / x" by (simp add: divide_neg_neg)
    then have "0 < arctan (y / x)" using zero_less_arctan_iff by blast
    moreover from 3 have "arctan2 y x = arctan (y / x) - pi" by (simp add: arctan2_def)
    ultimately show ?thesis using u p by linarith
  next
    case 4
    then have "arctan2 y x = pi / 2 \<or> arctan2 y x = - (pi / 2) \<or> arctan2 y x = 0"
      by (simp add: arctan2_def)
    with p show ?thesis by linarith
  qed
qed

lemma pointing_angle_range: "0 \<le> pointing_angle h \<and> pointing_angle h < 360"
proof -
  define a where "a = arctan2 (lm_y (h ! 8) - lm_y (h ! 0)) (lm_x (h ! 8) - lm_x (h ! 0))"
  have b: "- pi < a" "a \<le> pi" using arctan2_bounds [of "lm_y (h ! 8) - lm_y (h ! 0)"] by (simp_all add: a_def)
  have p: "0 < pi" by simp
  define q where "q = a / pi"
  have d: "degrees a = q * 180" by (simp add: degrees_def q_def)
  from b p have "- 1 < q" unfolding q_def by (simp add: pos_less_divide_eq)
  moreover from b p have "q \<le> 1" unfolding q_def by (simp add: pos_divide_le_eq)
  ultimately have "- 180 < q * 180 \<and> q * 180 \<le> 180" by linarith
  then have "- 180 < degrees a" "degrees a \<le> 180" unfolding d by blast+
  then show ?thesis
    unfolding pointing_angle_def a_def [symmetric] Let_def by auto
qed

lemma detect_hands_exclusive:
  "detect_hands d hands = Some ((sd, sp, ia, ap), d') \<Longrightarrow> \<not> (sd \<and> ia)"
proof (induction hands)
  case Nil
  then show ?case by (simp add: no_gesture_def)
next
  case (Cons h hands)
  then show ?case
    by (auto split: option.splits prod.splits if_splits)
qed

lemma up_facts:
  "length hand_pointing_up = 21" "strict_gun hand_pointing_up"
  "pointing_angle hand_pointing_up = 270" "index_tip_position hand_pointing_up = (500, 400)"
     apply (simp add: hand_pointing_up_def hand_of_def)
    apply (simp add: hand_pointing_up_def hand_of_def strict_gun_def finger_up_def)
   apply (simp add: hand_pointing_up_def hand_of_def pointing_angle_def arctan2_def degrees_def)
  apply (simp add: hand_pointing_up_def hand_of_def index_tip_position_def py_int_def)
  done

lemma right_facts:
  "length hand_pointing_right = 21"
  "pointing_angle hand_pointing_right = 0" "index_tip_position hand_pointing_right = (600, 500)"
    apply (simp add: hand_pointing_right_def hand_of_def)
   apply (simp add: hand_pointing_right_def hand_of_def pointing_angle_def arctan2_def degrees_def)
  apply (simp add: hand_pointing_right_def hand_of_def index_tip_position_def py_int_def)
  done


text \<open>
  C8. On a frame whose first hand has its 21 landmarks, the verdict is shoot, with the
  position of the index tip, exactly when the strict gun holds and the pointing angle,
  which lies in \<open>[0, 360)\<close>, is between 225 and 315; otherwise it is aiming with the
  position of the index tip. Without a hand the verdict is idle. No verdict of the
  detector is shoot and aiming at once.
\<close>

theorem gesture_classification:
  "(length h = 21 \<longrightarrow>
      (\<exists>d'. detect d (h # rest) =
         Some (if strict_gun h \<and> 225 \<le> pointing_angle h \<and> pointing_angle h \<le> 315
               then (True, Some (index_tip_position h), False, None)
               else (False, None, True, Some (index_tip_position h)), d'))
      \<and> 0 \<le> pointing_angle h \<and> pointing_angle h < 360)
   \<and> (\<exists>d'. detect d [] = Some ((False, None, False, None), d'))
   \<and> (detect d hands = Some ((sd, sp, ia, ap), d'') \<longrightarrow> \<not> (sd \<and> ia))"
proof (intro conjI impI)
  assume "length h = 21"
  then show "\<exists>d'. detect d (h # rest) =
         Some (if strict_gun h \<and> 225 \<le> pointing_angle h \<and> pointing_angle h \<le> 315
               then (True, Some (index_tip_position h), False, None)
               else (False, None, True, Some (index_tip_position h)), d')"
    by (simp add: detect_def detect_gun_gesture_21)
next
  show "0 \<le> pointing_angle h" "pointing_angle h < 360"
    using pointing_angle_range [of h] by simp_all
next
  show "\<exists>d'. detect d [] = Some ((False, None, False, None), d')"
    by (simp add: detect_def no_gesture_def)
next
  assume a: "detect d hands = Some ((sd, sp, ia, ap), d'')"
  show "\<not> (sd \<and> ia)"
  proof (cases "hands = []")
    case True
    with a show ?thesis by (simp add: detect_def no_gesture_def)
  next
    case False
    with a have "detect_hands d hands = Some ((sd, sp, ia, ap), d'')" by (simp add: detect_def)
    then show ?thesis by (rule detect_hands_exclusive)
  qed
qed

theorem gesture_classification_witness:
  "length hand_pointing_up = 21
   \<and> strict_gun hand_pointing_up \<and> pointing_angle hand_pointing_up = 270
   \<and> detect HeartDetector_init [hand_pointing_up] =
       Some ((True, Some (500, 400), False, None),
             \<lparr> det_shoot_detected = True, det_last_shoot_position = Some (500, 400),
               det_aiming = False, det_aiming_position = None \<rparr>)
   \<and> \<not> (True \<and> False)
   \<and> length hand_pointing_right = 21
   \<and> pointing_angle hand_pointing_right = 0
   \<and> detect HeartDetector_init [hand_pointing_right] =
       Some ((False, None, True, Some (600, 500)),
             \<lparr> det_shoot_detected = False, det_last_shoot_position = None,
               det_aiming = True, det_aiming_position = Some (600, 500) \<rparr>)"
proof -
  have u: "detect HeartDetector_init [hand_pointing_up] =
       Some ((True, Some (500, 400), False, None),
             \<lparr> det_shoot_detected = True, det_last_shoot_position = Some (500, 400),
               det_aiming = False, det_aiming_position = None \<rparr>)"
    by (simp add: detect_def detect_gun_gesture_21 up_facts HeartDetector_init_def)
  have r: "detect HeartDetector_init [hand_pointing_right] =
       Some ((False, None, True, Some (600, 500)),
             \<lparr> det_shoot_detected = False, det_last_shoot_position = None,
               det_aiming = True, det_aiming_position = Some (600, 500) \<rparr>)"
    by (simp add: detect_def detect_gun_gesture_21 right_facts HeartDetector_init_def)
  from gesture_classification [of hand_pointing_up HeartDetector_init "[]" "[hand_pointing_up]"
      True "Some (500, 400)" False None
      "\<lparr> det_shoot_detected = True, det_last_shoot_position = Some (500, 400),
         det_aiming = False, det_aiming_position = None \<rparr>"]
    up_facts right_facts u r
  show ?thesis by simp
qed

section \<open>The loop: rising edge and remembered aim\<close>

lemma shoot_keeps: "running (shoot g t x y) = running g \<and> state (shoot g t x y) = state g"
  by (simp add: shoot_def Let_def split: prod.splits)

lemma process_frame_Some:
  "process_frame loc g (Some (sd, sp, ia, ap)) t =
     (let ok = (state g = ''READY'' \<or> state g = ''RUN'');
          lap = (if ok \<and> ia \<and> ap \<noteq> None then ap else last_aiming_position loc);
          g1 = (if ok then set_aiming g ia ap else g);
          trig = (sd \<and> \<not> last_heart_state loc);
          fire = (trig \<and> state g = ''RUN'' \<and> lap \<noteq> None)
      in (loc\<lparr> last_aiming_position := lap, last_heart_state := sd \<rparr>,
          if fire then shoot g1 t (of_int (fst (the lap))) (of_int (snd (the lap))) else g1,
          trig,
          if fire then lap else None))"
proof (cases "state g = ''READY'' \<or> state g = ''RUN''")
  case True
  then have s: "state (set_aiming g ia ap) = ''RUN'' \<longleftrightarrow> state g = ''RUN''"
    by (simp add: set_aiming_def)
  show ?thesis
  proof (cases "if ia \<and> ap \<noteq> None then ap else last_aiming_position loc")
    case None
    with True s show ?thesis
      by (simp add: process_frame_def Let_def)
  next
    case (Some p)
    obtain x y where p: "p = (x, y)" by (cases p)
    with True s Some show ?thesis
      by (simp add: process_frame_def Let_def)
  qed
next
  case False
  then show ?thesis
    by (simp add: process_frame_def Let_def)
qed

lemma process_frame_None: "process_frame loc g None t = (loc, g, False, None)"
  by (simp add: process_frame_def)


lemma main_iteration_process_frame:
  assumes "main_iteration loc g inp = (loc', g', ob)"
  shows "obs_state ob = state g
    \<and> (\<exists>g1. process_frame (loc\<lparr> last_time := loop_time inp \<rparr>) g (frame_data inp) (shoot_time inp)
           = (loc', g1, obs_triggered ob, obs_shoot_call ob))"
proof -
  obtain loc2 g1 trig call where
    pf: "process_frame (loc\<lparr> last_time := loop_time inp \<rparr>) g (frame_data inp) (shoot_time inp)
          = (loc2, g1, trig, call)"
    by (metis prod_cases4)
  with assms have "loc' = loc2"
      "ob = \<lparr> obs_state = state g, obs_triggered = trig, obs_shoot_call = call \<rparr>"
    by (simp_all add: main_iteration_def Let_def)
  with pf show ?thesis by simp
qed

lemma process_frame_facts:
  assumes "process_frame loc g (frame_data inp) t = (loc', g', trig, call)"
  shows "trig = (shoot_detected_of inp \<and> \<not> last_heart_state loc)
    \<and> last_heart_state loc' =
           (if frame_data inp = None then last_heart_state loc else shoot_detected_of inp)
    \<and> last_aiming_position loc' =
           (case recorded_aim (state g) inp of
              Some q \<Rightarrow> Some q | None \<Rightarrow> last_aiming_position loc)
    \<and> call = (if trig \<and> state g = ''RUN'' then last_aiming_position loc' else None)"
proof (cases "frame_data inp")
  case None
  with assms have "loc' = loc" "trig = False" "call = None"
    by (simp_all add: process_frame_None)
  with None show ?thesis
    by (simp add: shoot_detected_of_def recorded_aim_def)
next
  case (Some v)
  obtain sd sp ia ap where v: "v = (sd, sp, ia, ap)" by (cases v)
  define ok where "ok = (state g = ''READY'' \<or> state g = ''RUN'')"
  define lap where "lap = (if ok \<and> ia \<and> ap \<noteq> None then ap else last_aiming_position loc)"
  define fire where "fire = ((sd \<and> \<not> last_heart_state loc) \<and> state g = ''RUN'' \<and> lap \<noteq> None)"
  define g1 where "g1 = (if ok then set_aiming g ia ap else g)"
  have pf: "process_frame loc g (Some (sd, sp, ia, ap)) t =
      (loc\<lparr> last_aiming_position := lap, last_heart_state := sd \<rparr>,
       if fire then shoot g1 t (of_int (fst (the lap))) (of_int (snd (the lap))) else g1,
       sd \<and> \<not> last_heart_state loc,
       if fire then lap else None)"
    unfolding process_frame_Some Let_def fire_def lap_def ok_def g1_def ..
  from assms [unfolded Some v pf]
  have e: "loc' = loc\<lparr> last_aiming_position := lap, last_heart_state := sd \<rparr>"
      "trig = (sd \<and> \<not> last_heart_state loc)" "call = (if fire then lap else None)"
    by simp_all
  have sdo: "shoot_detected_of inp = sd" by (simp add: shoot_detected_of_def Some v)
  have ra: "recorded_aim (state g) inp = (if ok \<and> ia then ap else None)"
    by (simp add: recorded_aim_def Some v ok_def)
  have l: "lap = (case recorded_aim (state g) inp of
              Some q \<Rightarrow> Some q | None \<Rightarrow> last_aiming_position loc)"
    by (cases ap) (simp_all add: ra lap_def)
  have c: "call = (if trig \<and> state g = ''RUN'' then lap else None)"
    by (cases lap) (simp_all add: e fire_def)
  from e(2) sdo have "trig = (shoot_detected_of inp \<and> \<not> last_heart_state loc)" by simp
  moreover have "last_heart_state loc' =
           (if frame_data inp = None then last_heart_state loc else shoot_detected_of inp)"
    by (simp add: e(1) sdo Some)
  moreover have "last_aiming_position loc' = lap" by (simp add: e(1))
  ultimately show ?thesis using l c by simp
qed

lemma main_iteration_facts:
  assumes "main_iteration loc g inp = (loc', g', ob)"
  shows "obs_state ob = state g
    \<and> obs_triggered ob = (shoot_detected_of inp \<and> \<not> last_heart_state loc)
    \<and> last_heart_state loc' =
           (if frame_data inp = None then last_heart_state loc else shoot_detected_of inp)
    \<and> last_aiming_position loc' =
           (case recorded_aim (state g) inp of
              Some q \<Rightarrow> Some q | None \<Rightarrow> last_aiming_position loc)
    \<and> obs_shoot_call ob =
           (if obs_triggered ob \<and> state g = ''RUN'' then last_aiming_position loc' else None)"
proof -
  from main_iteration_process_frame [OF assms] obtain g1 where
    s: "obs_state ob = state g" and
    pf: "process_frame (loc\<lparr> last_time := loop_time inp \<rparr>) g (frame_data inp) (shoot_time inp)
           = (loc', g1, obs_triggered ob, obs_shoot_call ob)"
    by blast
  have k: "last_heart_state (loc\<lparr> last_time := loop_time inp \<rparr>) = last_heart_state loc"
      "last_aiming_position (loc\<lparr> last_time := loop_time inp \<rparr>) = last_aiming_position loc"
    by simp_all
  from process_frame_facts [OF pf, unfolded k] s show ?thesis by blast
qed

lemma handle_event_running:
  "\<not> is_quit e \<Longrightarrow> running (snd (handle_event g e)) = running g"
  by (cases e) (auto simp: handle_event_def is_quit_def)

lemma process_events_running:
  "\<forall>e \<in> set es. \<not> is_quit (ev e) \<Longrightarrow> running (process_events g es) = running g"
proof (induction es arbitrary: g)
  case Nil
  then show ?case by simp
next
  case (Cons e es)
  obtain command g1 where h: "handle_event g (ev e) = (command, g1)" by (cases "handle_event g (ev e)")
  from Cons.prems have "\<not> is_quit (ev e)" by simp
  from handle_event_running [OF this, of g] h have r: "running g1 = running g" by simp
  define g2 where "g2 = (if command = Some ''start'' then start_game g1 (ev_time1 e) (ev_time2 e)
                else if command = Some ''manual_shoot'' then shoot g1 (ev_time1 e) 500 500
                else g1)"
  have r2: "running g2 = running g" using r by (simp add: g2_def start_game_def shoot_keeps)
  have "process_events g (e # es) = process_events g2 es"
    by (simp add: h g2_def)
  moreover from Cons.prems have "\<forall>e \<in> set es. \<not> is_quit (ev e)" by simp
  ultimately show ?case using Cons.IH [of g2] r2 by simp
qed

lemma process_frame_running:
  "running (fst (snd (process_frame loc g fd t))) = running g"
proof (cases fd)
  case None
  then show ?thesis by (simp add: process_frame_None)
next
  case (Some v)
  obtain sd sp ia ap where v: "v = (sd, sp, ia, ap)" by (cases v)
  with Some show ?thesis
    by (simp add: process_frame_Some Let_def shoot_keeps set_aiming_def)
qed

lemma main_iteration_running:
  assumes "\<forall>e \<in> set (events inp). \<not> is_quit (ev e)"
    and "main_iteration loc g inp = (loc', g', ob)"
  shows "running g' = running g"
proof -
  obtain loc2 g1 trig call where
    pf: "process_frame (loc\<lparr> last_time := loop_time inp \<rparr>) g (frame_data inp) (shoot_time inp)
          = (loc2, g1, trig, call)"
    by (metis prod_cases4)
  from process_frame_running [of "loc\<lparr> last_time := loop_time inp \<rparr>" g "frame_data inp" "shoot_time inp"] pf
  have r1: "running g1 = running g" by simp
  from assms(2) pf obtain dt where
    "g' = run_frame (process_events g1 (events inp)) (update_time inp) (update_draws inp) dt"
    by (auto simp: main_iteration_def Let_def)
  then show ?thesis
    using r1 process_events_running [OF assms(1), of g1]
    by (simp add: run_frame_def Game_update_keeps)
qed


lemma main_loop_Cons:
  "running g \<Longrightarrow> main_iteration loc g inp = (loc1, g1, ob) \<Longrightarrow>
   main_loop loc g (inp # inps) = (ob # fst (main_loop loc1 g1 inps), snd (main_loop loc1 g1 inps))"
  by (simp add: Let_def split: prod.splits)

lemma main_loop_not_running: "\<not> running g \<Longrightarrow> fst (main_loop loc g inps) = []"
  by (cases inps) simp_all

lemma main_loop_triggers:
  assumes "\<forall>inp \<in> set inps. frame_data inp \<noteq> None"
    and "\<forall>inp \<in> set inps. \<forall>e \<in> set (events inp). \<not> is_quit (ev e)"
    and "running g"
  shows "length (fst (main_loop loc g inps)) = length inps
    \<and> (\<forall>i < length inps.
          obs_triggered (fst (main_loop loc g inps) ! i) =
            (shoot_detected_of (inps ! i)
             \<and> \<not> (if i = 0 then last_heart_state loc else shoot_detected_of (inps ! (i - 1)))))"
  using assms
proof (induction inps arbitrary: loc g)
  case Nil
  then show ?case by simp
next
  case (Cons inp inps)
  obtain loc1 g1 ob where it: "main_iteration loc g inp = (loc1, g1, ob)"
    by (metis prod_cases3)
  note f = main_iteration_facts [OF it]
  from Cons.prems(2) have nq: "\<forall>e \<in> set (events inp). \<not> is_quit (ev e)" by simp
  from main_iteration_running [OF nq it] Cons.prems(3) have r1: "running g1" by simp
  from Cons.prems(1) have fr: "frame_data inp \<noteq> None" by simp
  with f have l1: "last_heart_state loc1 = shoot_detected_of inp" by simp
  from f have t0: "obs_triggered ob = (shoot_detected_of inp \<and> \<not> last_heart_state loc)" by simp
  have ml: "fst (main_loop loc g (inp # inps)) = ob # fst (main_loop loc1 g1 inps)"
    using main_loop_Cons [OF Cons.prems(3) it] by simp
  from Cons.prems have p1: "\<forall>inp \<in> set inps. frame_data inp \<noteq> None"
    and p2: "\<forall>inp \<in> set inps. \<forall>e \<in> set (events inp). \<not> is_quit (ev e)" by simp_all
  note ih = Cons.IH [OF p1 p2 r1, of loc1]
  show ?case
  proof (intro conjI allI impI)
    show "length (fst (main_loop loc g (inp # inps))) = length (inp # inps)"
      using ih ml by simp
  next
    fix i assume i: "i < length (inp # inps)"
    show "obs_triggered (fst (main_loop loc g (inp # inps)) ! i) =
            (shoot_detected_of ((inp # inps) ! i)
             \<and> \<not> (if i = 0 then last_heart_state loc
                  else shoot_detected_of ((inp # inps) ! (i - 1))))"
    proof (cases i)
      case 0
      with ml t0 show ?thesis by simp
    next
      case (Suc k)
      with i have k: "k < length inps" by simp
      from ih k have "obs_triggered (fst (main_loop loc1 g1 inps) ! k) =
            (shoot_detected_of (inps ! k)
             \<and> \<not> (if k = 0 then last_heart_state loc1 else shoot_detected_of (inps ! (k - 1))))"
        by blast
      with Suc ml l1 show ?thesis by (cases k) simp_all
    qed
  qed
qed

lemma replay_run:
  "fst (main_loop (main_locals_init 999) Game_init replay_ticks) =
     [\<lparr> obs_state = ''READY'', obs_triggered = False, obs_shoot_call = None \<rparr>,
      \<lparr> obs_state = ''RUN'', obs_triggered = False, obs_shoot_call = None \<rparr>,
      \<lparr> obs_state = ''RESULT'', obs_triggered = False, obs_shoot_call = None \<rparr>,
      \<lparr> obs_state = ''READY'', obs_triggered = False, obs_shoot_call = None \<rparr>,
      \<lparr> obs_state = ''RUN'', obs_triggered = True, obs_shoot_call = Some (100, 100) \<rparr>]"
  by (simp add: replay_ticks_def tick_def key_at_def main_locals_init_def Game_init_def
      main_iteration_def process_frame_def Let_def set_aiming_def handle_event_def
      start_game_def run_frame_def Game_update_def shoot_def ShootEffect_init_def
      ShootEffect_update_def
      GAME_DURATION_def BALLOON_SPAWN_INTERVAL_def SHOOT_COOLDOWN_def VIRTUAL_WIDTH_def
      VIRTUAL_HEIGHT_def)


lemma recorded_at_Cons:
  "recorded_at (ob # obs) (inp # inps) 0 = recorded_aim (obs_state ob) inp"
  "recorded_at (ob # obs) (inp # inps) (Suc k) = recorded_at obs inps k"
  by (simp_all add: recorded_at_def)

lemma main_loop_shoot_call:
  assumes "i < length (fst (main_loop loc g inps))"
    and "obs_shoot_call (fst (main_loop loc g inps) ! i) = Some p"
  shows "(\<exists>j \<le> i. recorded_at (fst (main_loop loc g inps)) inps j = Some p
            \<and> (\<forall>k. j < k \<and> k \<le> i \<longrightarrow> recorded_at (fst (main_loop loc g inps)) inps k = None))
         \<or> ((\<forall>k \<le> i. recorded_at (fst (main_loop loc g inps)) inps k = None)
            \<and> last_aiming_position loc = Some p)"
  using assms
proof (induction inps arbitrary: loc g i)
  case Nil
  then show ?case by simp
next
  case (Cons inp inps)
  have r: "running g"
  proof (rule ccontr)
    assume "\<not> running g"
    from main_loop_not_running [OF this, of loc "inp # inps"] Cons.prems(1) show False by simp
  qed
  obtain loc1 g1 ob where it: "main_iteration loc g inp = (loc1, g1, ob)"
    by (metis prod_cases3)
  note f = main_iteration_facts [OF it]
  define obs' where "obs' = fst (main_loop loc1 g1 inps)"
  have ml: "fst (main_loop loc g (inp # inps)) = ob # obs'"
    using main_loop_Cons [OF r it] by (simp add: obs'_def)
  from f have st: "obs_state ob = state g" by simp
  from f have lap: "last_aiming_position loc1 =
      (case recorded_aim (state g) inp of Some q \<Rightarrow> Some q | None \<Rightarrow> last_aiming_position loc)"
    by simp
  have step: "last_aiming_position loc1 = Some p \<Longrightarrow>
      recorded_at (ob # obs') (inp # inps) 0 = Some p
      \<or> (recorded_at (ob # obs') (inp # inps) 0 = None \<and> last_aiming_position loc = Some p)"
    using lap st by (cases "recorded_aim (state g) inp") (simp_all add: recorded_at_Cons)
  show ?case
  proof (cases i)
    case 0
    with Cons.prems(2) ml have "obs_shoot_call ob = Some p" by simp
    with f have "last_aiming_position loc1 = Some p" by (simp split: if_splits)
    from step [OF this] show ?thesis
      unfolding ml 0 by auto
  next
    case (Suc n)
    with Cons.prems ml have n: "n < length (fst (main_loop loc1 g1 inps))"
      and c: "obs_shoot_call (fst (main_loop loc1 g1 inps) ! n) = Some p"
      by (simp_all add: obs'_def)
    from Cons.IH [OF n c]
    have "(\<exists>j \<le> n. recorded_at obs' inps j = Some p
            \<and> (\<forall>k. j < k \<and> k \<le> n \<longrightarrow> recorded_at obs' inps k = None))
         \<or> ((\<forall>k \<le> n. recorded_at obs' inps k = None) \<and> last_aiming_position loc1 = Some p)"
      by (simp add: obs'_def)
    then show ?thesis
    proof
      assume "\<exists>j \<le> n. recorded_at obs' inps j = Some p
            \<and> (\<forall>k. j < k \<and> k \<le> n \<longrightarrow> recorded_at obs' inps k = None)"
      then obtain j where j: "j \<le> n" "recorded_at obs' inps j = Some p"
        and jn: "\<forall>k. j < k \<and> k \<le> n \<longrightarrow> recorded_at obs' inps k = None" by blast
      have "\<forall>k. Suc j < k \<and> k \<le> Suc n \<longrightarrow> recorded_at (ob # obs') (inp # inps) k = None"
      proof (intro allI impI)
        fix k assume k: "Suc j < k \<and> k \<le> Suc n"
        then obtain m where m: "k = Suc m" by (cases k) simp_all
        with k jn have "recorded_at obs' inps m = None" by simp
        with m show "recorded_at (ob # obs') (inp # inps) k = None"
          by (simp add: recorded_at_Cons)
      qed
      moreover have "recorded_at (ob # obs') (inp # inps) (Suc j) = Some p"
        using j by (simp add: recorded_at_Cons)
      moreover have "Suc j \<le> Suc n" using j by simp
      ultimately show ?thesis unfolding ml Suc by blast
    next
      assume a: "(\<forall>k \<le> n. recorded_at obs' inps k = None) \<and> last_aiming_position loc1 = Some p"
      then have rest: "\<forall>k. 0 < k \<and> k \<le> Suc n \<longrightarrow> recorded_at (ob # obs') (inp # inps) k = None"
      proof (intro allI impI)
        fix k assume k: "0 < k \<and> k \<le> Suc n"
        then obtain m where m: "k = Suc m" by (cases k) simp_all
        with k a have "recorded_at obs' inps m = None" by simp
        with m show "recorded_at (ob # obs') (inp # inps) k = None"
          by (simp add: recorded_at_Cons)
      qed
      from a step have "recorded_at (ob # obs') (inp # inps) 0 = Some p
        \<or> (recorded_at (ob # obs') (inp # inps) 0 = None \<and> last_aiming_position loc = Some p)"
        by blast
      then show ?thesis
      proof
        assume "recorded_at (ob # obs') (inp # inps) 0 = Some p"
        with rest show ?thesis unfolding ml Suc by blast
      next
        assume b: "recorded_at (ob # obs') (inp # inps) 0 = None \<and> last_aiming_position loc = Some p"
        have "\<forall>k \<le> Suc n. recorded_at (ob # obs') (inp # inps) k = None"
        proof (intro allI impI)
          fix k assume "k \<le> Suc n"
          with rest b show "recorded_at (ob # obs') (inp # inps) k = None"
            by (cases "k = 0") simp_all
        qed
        with b show ?thesis unfolding ml Suc by blast
      qed
    qed
  qed
qed

lemma main_loop_shoot_call_triggered:
  assumes "i < length (fst (main_loop loc g inps))"
    and "obs_shoot_call (fst (main_loop loc g inps) ! i) \<noteq> None"
  shows "shoot_detected_of (inps ! i) \<and> obs_triggered (fst (main_loop loc g inps) ! i)
    \<and> obs_state (fst (main_loop loc g inps) ! i) = ''RUN''"
  using assms
proof (induction inps arbitrary: loc g i)
  case Nil
  then show ?case by simp
next
  case (Cons inp inps)
  have r: "running g"
  proof (rule ccontr)
    assume "\<not> running g"
    from main_loop_not_running [OF this, of loc "inp # inps"] Cons.prems(1) show False by simp
  qed
  obtain loc1 g1 ob where it: "main_iteration loc g inp = (loc1, g1, ob)"
    by (metis prod_cases3)
  note f = main_iteration_facts [OF it]
  have ml: "fst (main_loop loc g (inp # inps)) = ob # fst (main_loop loc1 g1 inps)"
    using main_loop_Cons [OF r it] by simp
  show ?case
  proof (cases i)
    case 0
    with Cons.prems(2) ml have "obs_shoot_call ob \<noteq> None" by simp
    with f 0 ml show ?thesis by (simp split: if_splits)
  next
    case (Suc n)
    with Cons.prems ml have "n < length (fst (main_loop loc1 g1 inps))"
      "obs_shoot_call (fst (main_loop loc1 g1 inps) ! n) \<noteq> None" by simp_all
    from Cons.IH [OF this] Suc ml show ?thesis by simp
  qed
qed

lemma replay_recorded:
  "recorded_at (fst (main_loop (main_locals_init 999) Game_init replay_ticks)) replay_ticks 0
     = Some (100, 100)"
  "recorded_at (fst (main_loop (main_locals_init 999) Game_init replay_ticks)) replay_ticks 1 = None"
  "recorded_at (fst (main_loop (main_locals_init 999) Game_init replay_ticks)) replay_ticks 2 = None"
  "recorded_at (fst (main_loop (main_locals_init 999) Game_init replay_ticks)) replay_ticks 3 = None"
  unfolding replay_run
  by (simp_all add: recorded_at_def recorded_aim_def replay_ticks_def tick_def)

text \<open>
  C5. When every iteration has a frame, no event ends the loop and the remembered verdict
  starts as false, the condition of the shot holds in exactly those iterations whose
  verdict is shoot and whose predecessor's verdict was not: for the verdicts false, true,
  true, false, true these are the iterations 1 and 4.
\<close>

theorem rising_edge_triggers:
  assumes "\<forall>inp \<in> set inps. frame_data inp \<noteq> None"
    and "\<forall>inp \<in> set inps. \<forall>e \<in> set (events inp). \<not> is_quit (ev e)"
    and "running g"
    and "\<not> last_heart_state loc"
  shows "length (fst (main_loop loc g inps)) = length inps
    \<and> (\<forall>i < length inps.
          obs_triggered (fst (main_loop loc g inps) ! i) =
            (shoot_detected_of (inps ! i) \<and> (i = 0 \<or> \<not> shoot_detected_of (inps ! (i - 1)))))"
proof -
  note m = main_loop_triggers [OF assms(1-3), of loc]
  show ?thesis
  proof (intro conjI allI impI)
    show "length (fst (main_loop loc g inps)) = length inps" using m by blast
  next
    fix i assume "i < length inps"
    with m have "obs_triggered (fst (main_loop loc g inps) ! i) =
            (shoot_detected_of (inps ! i)
             \<and> \<not> (if i = 0 then last_heart_state loc else shoot_detected_of (inps ! (i - 1))))"
      by blast
    with assms(4) show "obs_triggered (fst (main_loop loc g inps) ! i) =
            (shoot_detected_of (inps ! i) \<and> (i = 0 \<or> \<not> shoot_detected_of (inps ! (i - 1))))"
      by (cases "i = 0") simp_all
  qed
qed

theorem rising_edge_triggers_witness:
  "running Game_init \<and> \<not> last_heart_state (main_locals_init 0)
   \<and> map shoot_detected_of five_ticks = [False, True, True, False, True]
   \<and> length (fst (main_loop (main_locals_init 0) Game_init five_ticks)) = 5
   \<and> obs_triggered (fst (main_loop (main_locals_init 0) Game_init five_ticks) ! 0) = False
   \<and> obs_triggered (fst (main_loop (main_locals_init 0) Game_init five_ticks) ! 1) = True
   \<and> obs_triggered (fst (main_loop (main_locals_init 0) Game_init five_ticks) ! 2) = False
   \<and> obs_triggered (fst (main_loop (main_locals_init 0) Game_init five_ticks) ! 3) = False
   \<and> obs_triggered (fst (main_loop (main_locals_init 0) Game_init five_ticks) ! 4) = True"
proof -
  have h1: "\<forall>inp \<in> set five_ticks. frame_data inp \<noteq> None"
    by (simp add: five_ticks_def tick_def del: not_None_eq)
  have h2: "\<forall>inp \<in> set five_ticks. \<forall>e \<in> set (events inp). \<not> is_quit (ev e)"
    by (simp add: five_ticks_def tick_def)
  have h3: "running Game_init" by (simp add: Game_init_def)
  have h4: "\<not> last_heart_state (main_locals_init 0)" by (simp add: main_locals_init_def)
  have sd: "map shoot_detected_of five_ticks = [False, True, True, False, True]"
    by (simp add: five_ticks_def tick_def shoot_detected_of_def)
  have len: "length five_ticks = 5" by (simp add: five_ticks_def)
  have nth: "shoot_detected_of (five_ticks ! 0) = False" "shoot_detected_of (five_ticks ! 1) = True"
    "shoot_detected_of (five_ticks ! 2) = True" "shoot_detected_of (five_ticks ! 3) = False"
    "shoot_detected_of (five_ticks ! 4) = True"
    by (simp_all add: five_ticks_def tick_def shoot_detected_of_def)
  note t = rising_edge_triggers [OF h1 h2 h3 h4]
  from t have l: "length (fst (main_loop (main_locals_init 0) Game_init five_ticks)) = 5"
    by (simp add: len)
  from t have a: "\<And>i. i < 5 \<Longrightarrow>
      obs_triggered (fst (main_loop (main_locals_init 0) Game_init five_ticks) ! i) =
        (shoot_detected_of (five_ticks ! i) \<and> (i = 0 \<or> \<not> shoot_detected_of (five_ticks ! (i - 1))))"
    by (simp add: len)
  have "obs_triggered (fst (main_loop (main_locals_init 0) Game_init five_ticks) ! 0) = False"
    using a [of 0] nth by simp
  moreover have "obs_triggered (fst (main_loop (main_locals_init 0) Game_init five_ticks) ! 1) = True"
    using a [of 1] nth by simp
  moreover have "obs_triggered (fst (main_loop (main_locals_init 0) Game_init five_ticks) ! 2) = False"
    using a [of 2] nth by simp
  moreover have "obs_triggered (fst (main_loop (main_locals_init 0) Game_init five_ticks) ! 3) = False"
    using a [of 3] nth by simp
  moreover have "obs_triggered (fst (main_loop (main_locals_init 0) Game_init five_ticks) ! 4) = True"
    using a [of 4] nth by simp
  ultimately show ?thesis using h3 h4 sd l by blast
qed

text \<open>
  C6, as the code has it. The position passed to \<^verbatim>\<open>game.shoot\<close> by the gesture is the one
  recorded by the most recent earlier iteration that recorded an aiming position, that
  is, whose verdict was aiming while the game was in state READY or RUN; if no earlier
  iteration recorded one, it is the position the loop started with. The shoot position
  reported by the detector does not enter the result of the iteration.
\<close>

theorem shot_at_last_recorded_aim:
  assumes "i < length (fst (main_loop loc g inps))"
    and "obs_shoot_call (fst (main_loop loc g inps) ! i) = Some p"
    and "\<not> (shoot_detected_of (inps ! i) \<and> aiming_of (inps ! i))"
  shows "((\<exists>j < i. recorded_at (fst (main_loop loc g inps)) inps j = Some p
             \<and> (\<forall>k. j < k \<and> k < i \<longrightarrow> recorded_at (fst (main_loop loc g inps)) inps k = None))
          \<or> ((\<forall>k < i. recorded_at (fst (main_loop loc g inps)) inps k = None)
             \<and> last_aiming_position loc = Some p))
     \<and> process_frame loc0 g0 (Some (sd, sp, ia, ap)) t
         = process_frame loc0 g0 (Some (sd, sp', ia, ap)) t"
proof
  define obs where "obs = fst (main_loop loc g inps)"
  from assms(2) have "obs_shoot_call (fst (main_loop loc g inps) ! i) \<noteq> None" by simp
  from main_loop_shoot_call_triggered [OF assms(1) this] have "shoot_detected_of (inps ! i)"
    by simp
  with assms(3) have "\<not> aiming_of (inps ! i)" by simp
  then have ri: "recorded_at obs inps i = None"
    by (auto simp: recorded_at_def recorded_aim_def aiming_of_def split: option.splits)
  from main_loop_shoot_call [OF assms(1,2)]
  have "(\<exists>j \<le> i. recorded_at obs inps j = Some p
            \<and> (\<forall>k. j < k \<and> k \<le> i \<longrightarrow> recorded_at obs inps k = None))
         \<or> ((\<forall>k \<le> i. recorded_at obs inps k = None) \<and> last_aiming_position loc = Some p)"
    by (simp add: obs_def)
  then have "(\<exists>j < i. recorded_at obs inps j = Some p
             \<and> (\<forall>k. j < k \<and> k < i \<longrightarrow> recorded_at obs inps k = None))
          \<or> ((\<forall>k < i. recorded_at obs inps k = None) \<and> last_aiming_position loc = Some p)"
  proof
    assume "\<exists>j \<le> i. recorded_at obs inps j = Some p
            \<and> (\<forall>k. j < k \<and> k \<le> i \<longrightarrow> recorded_at obs inps k = None)"
    then obtain j where j: "j \<le> i" "recorded_at obs inps j = Some p"
      "\<forall>k. j < k \<and> k \<le> i \<longrightarrow> recorded_at obs inps k = None" by blast
    from j(2) ri have "j \<noteq> i" by auto
    with j(1) have "j < i" by simp
    moreover from j(3) have "\<forall>k. j < k \<and> k < i \<longrightarrow> recorded_at obs inps k = None" by simp
    ultimately show ?thesis using j(2) by blast
  next
    assume "(\<forall>k \<le> i. recorded_at obs inps k = None) \<and> last_aiming_position loc = Some p"
    then show ?thesis by simp
  qed
  then show "(\<exists>j < i. recorded_at (fst (main_loop loc g inps)) inps j = Some p
             \<and> (\<forall>k. j < k \<and> k < i \<longrightarrow> recorded_at (fst (main_loop loc g inps)) inps k = None))
          \<or> ((\<forall>k < i. recorded_at (fst (main_loop loc g inps)) inps k = None)
             \<and> last_aiming_position loc = Some p)"
    by (simp add: obs_def)
next
  show "process_frame loc0 g0 (Some (sd, sp, ia, ap)) t
         = process_frame loc0 g0 (Some (sd, sp', ia, ap)) t"
    by (simp add: process_frame_Some)
qed

theorem shot_at_last_recorded_aim_witness:
  "4 < length (fst (main_loop (main_locals_init 999) Game_init replay_ticks))
   \<and> obs_shoot_call (fst (main_loop (main_locals_init 999) Game_init replay_ticks) ! 4)
       = Some (100, 100)
   \<and> \<not> (shoot_detected_of (replay_ticks ! 4) \<and> aiming_of (replay_ticks ! 4))
   \<and> recorded_at (fst (main_loop (main_locals_init 999) Game_init replay_ticks)) replay_ticks 0
       = Some (100, 100)
   \<and> recorded_at (fst (main_loop (main_locals_init 999) Game_init replay_ticks)) replay_ticks 1 = None
   \<and> recorded_at (fst (main_loop (main_locals_init 999) Game_init replay_ticks)) replay_ticks 2 = None
   \<and> recorded_at (fst (main_loop (main_locals_init 999) Game_init replay_ticks)) replay_ticks 3 = None
   \<and> last_aiming_position (main_locals_init 999) = None"
proof -
  have h1: "4 < length (fst (main_loop (main_locals_init 999) Game_init replay_ticks))"
    by (simp add: replay_run)
  have h2: "obs_shoot_call (fst (main_loop (main_locals_init 999) Game_init replay_ticks) ! 4)
       = Some (100, 100)"
    by (simp add: replay_run)
  have h3: "\<not> (shoot_detected_of (replay_ticks ! 4) \<and> aiming_of (replay_ticks ! 4))"
    by (simp add: replay_ticks_def tick_def aiming_of_def)
  have l: "last_aiming_position (main_locals_init 999) = None"
    by (simp add: main_locals_init_def)
  from shot_at_last_recorded_aim [OF h1 h2 h3] h1 h2 h3 l replay_recorded
  show ?thesis by simp
qed

text \<open>
  An aiming verdict in state RESULT is not recorded. In the run below the game is
  started, ends, is restarted and started again; the aiming verdict at \<open>(900, 900)\<close> of
  iteration 2 comes in state RESULT, and the shot of iteration 4 goes to \<open>(100, 100)\<close>,
  the position of iteration 0, not to the position of the most recent aiming verdict.
\<close>

theorem shot_not_at_latest_aiming_verdict:
  "obs_shoot_call (fst (main_loop (main_locals_init 999) Game_init replay_ticks) ! 4)
     = Some (100, 100)
   \<and> latest_aiming_before replay_ticks 4 = Some (900, 900)
   \<and> aimed_at (replay_ticks ! 2) = Some (900, 900)
   \<and> aimed_at (replay_ticks ! 3) = None
   \<and> obs_state (fst (main_loop (main_locals_init 999) Game_init replay_ticks) ! 2) = ''RESULT''"
  unfolding replay_run
  by (simp add: latest_aiming_before_def aimed_at_def replay_ticks_def tick_def)

text \<open>
  C10. While no aiming position is remembered, an iteration that records none makes no
  call of \<^verbatim>\<open>game.shoot\<close>, also on a rising edge: the block of the frame leaves shoot
  effects, score, popped counter, time of the last shot and balloons as they were. In a
  run that starts without a remembered position, no iteration calls \<^verbatim>\<open>game.shoot\<close>
  before one has recorded a position.
\<close>

theorem no_shot_without_recorded_aim:
  assumes "last_aiming_position loc = None"
  shows "(recorded_aim (state g) inp = None \<longrightarrow>
            (case process_frame loc g (frame_data inp) t of
               (loc', g', trig, call) \<Rightarrow>
                 trig = (shoot_detected_of inp \<and> \<not> last_heart_state loc)
                 \<and> call = None \<and> last_aiming_position loc' = None
                 \<and> shoot_effects g' = shoot_effects g \<and> score g' = score g
                 \<and> balloons_popped g' = balloons_popped g
                 \<and> last_shoot_time g' = last_shoot_time g \<and> balloons g' = balloons g))
     \<and> (\<forall>i < length (fst (main_loop loc g inps)).
           (\<forall>k \<le> i. recorded_at (fst (main_loop loc g inps)) inps k = None) \<longrightarrow>
           obs_shoot_call (fst (main_loop loc g inps) ! i) = None)"
proof (intro conjI impI allI)
  assume r: "recorded_aim (state g) inp = None"
  obtain loc' g' trig call where pf: "process_frame loc g (frame_data inp) t = (loc', g', trig, call)"
    by (metis prod_cases4)
  from process_frame_facts [OF pf] r assms
  have f: "trig = (shoot_detected_of inp \<and> \<not> last_heart_state loc)" "call = None"
    "last_aiming_position loc' = None"
    by simp_all
  have g: "shoot_effects g' = shoot_effects g \<and> score g' = score g
      \<and> balloons_popped g' = balloons_popped g
      \<and> last_shoot_time g' = last_shoot_time g \<and> balloons g' = balloons g"
  proof (cases "frame_data inp")
    case None
    with pf show ?thesis by (simp add: process_frame_None)
  next
    case (Some v)
    obtain sd sp ia ap where v: "v = (sd, sp, ia, ap)" by (cases v)
    from r Some v have "\<not> ((state g = ''READY'' \<or> state g = ''RUN'') \<and> ia \<and> ap \<noteq> None)"
      by (auto simp: recorded_aim_def)
    with pf Some v assms have "g' = (if state g = ''READY'' \<or> state g = ''RUN''
        then set_aiming g ia ap else g)"
      by (auto simp: process_frame_Some Let_def)
    then show ?thesis by (simp add: set_aiming_def)
  qed
  from f g pf show "case process_frame loc g (frame_data inp) t of
               (loc', g', trig, call) \<Rightarrow>
                 trig = (shoot_detected_of inp \<and> \<not> last_heart_state loc)
                 \<and> call = None \<and> last_aiming_position loc' = None
                 \<and> shoot_effects g' = shoot_effects g \<and> score g' = score g
                 \<and> balloons_popped g' = balloons_popped g
                 \<and> last_shoot_time g' = last_shoot_time g \<and> balloons g' = balloons g"
    by simp
next
  fix i assume i: "i < length (fst (main_loop loc g inps))"
  assume n: "\<forall>k \<le> i. recorded_at (fst (main_loop loc g inps)) inps k = None"
  show "obs_shoot_call (fst (main_loop loc g inps) ! i) = None"
  proof (rule ccontr)
    assume "obs_shoot_call (fst (main_loop loc g inps) ! i) \<noteq> None"
    then obtain p where "obs_shoot_call (fst (main_loop loc g inps) ! i) = Some p" by blast
    from main_loop_shoot_call [OF i this] n assms show False by auto
  qed
qed

theorem no_shot_without_recorded_aim_witness:
  "last_aiming_position (main_locals_init 0) = None
   \<and> recorded_aim (state fresh_game_1000) shoot_tick = None
   \<and> shoot_detected_of shoot_tick \<and> \<not> last_heart_state (main_locals_init 0)
   \<and> process_frame (main_locals_init 0) fresh_game_1000 (frame_data shoot_tick) 1001
       = ((main_locals_init 0)\<lparr> last_heart_state := True \<rparr>, fresh_game_1000, True, None)
   \<and> 0 < length (fst (main_loop (main_locals_init 0) fresh_game_1000 [shoot_tick]))
   \<and> recorded_at (fst (main_loop (main_locals_init 0) fresh_game_1000 [shoot_tick])) [shoot_tick] 0
       = None
   \<and> obs_triggered (fst (main_loop (main_locals_init 0) fresh_game_1000 [shoot_tick]) ! 0)
   \<and> obs_shoot_call (fst (main_loop (main_locals_init 0) fresh_game_1000 [shoot_tick]) ! 0) = None"
proof -
  have h: "last_aiming_position (main_locals_init 0) = None"
    by (simp add: main_locals_init_def)
  have r: "recorded_aim (state fresh_game_1000) shoot_tick = None"
    by (simp add: recorded_aim_def shoot_tick_def tick_def)
  have s: "shoot_detected_of shoot_tick" "\<not> last_heart_state (main_locals_init 0)"
    by (simp_all add: shoot_detected_of_def shoot_tick_def tick_def main_locals_init_def)
  have pf: "process_frame (main_locals_init 0) fresh_game_1000 (frame_data shoot_tick) 1001
       = ((main_locals_init 0)\<lparr> last_heart_state := True \<rparr>, fresh_game_1000, True, None)"
    by (simp add: shoot_tick_def tick_def process_frame_Some Let_def main_locals_init_def
        fresh_game_1000_def start_game_def Game_init_def set_aiming_def)
  have run: "fst (main_loop (main_locals_init 0) fresh_game_1000 [shoot_tick])
      = [\<lparr> obs_state = ''RUN'', obs_triggered = True, obs_shoot_call = None \<rparr>]"
    by (simp add: shoot_tick_def tick_def main_iteration_def process_frame_Some Let_def
        main_locals_init_def fresh_game_1000_def start_game_def Game_init_def set_aiming_def)
  have ra: "recorded_at (fst (main_loop (main_locals_init 0) fresh_game_1000 [shoot_tick])) [shoot_tick] 0
       = None"
    unfolding run by (simp add: recorded_at_def recorded_aim_def shoot_tick_def tick_def)
  from no_shot_without_recorded_aim [OF h, of fresh_game_1000 shoot_tick 1001 "[shoot_tick]"]
    h r s pf ra run
  show ?thesis by simp
qed

end
